theory Spec2Isabelle
  imports Complex_Main
begin

section \<open>Data model\<close>

text \<open>
  The scheduler keeps its jobs and execution states (PCBs) in MongoDB and its ready
  queues in Redis. A job identifier is a MongoDB ObjectId; its string form has 24
  hexadecimal digits, so it is never the empty string and the test \<^verbatim>\<open>if (result)\<close> on
  the result of \<^verbatim>\<open>rPop\<close> tells exactly whether an identifier was popped.
  A JavaScript Number is modelled by an exact number: \<open>nat\<close> for the counters
  (retryCount, maxRetries, resumeCount), which start at a non-negative default and are
  only incremented, \<open>int\<close> for priorities and for epoch milliseconds, \<open>rat\<close> for
  durations, which the code divides. \<open>None\<close> stands for \<^verbatim>\<open>undefined\<close>: in a stored
  document the field is absent. A PCB document has its own \<^verbatim>\<open>_id\<close> (\<open>pcb_id\<close>) besides
  the reference \<^verbatim>\<open>jobId\<close> to its job.
\<close>

type_synonym job_id = nat

datatype job_status = PENDING | READY | RUNNING | SUSPENDED | SUCCESS | FAILED

datatype pcb_status = PCB_RUNNING | PCB_SUSPENDED | PCB_READY | PCB_COMPLETED

record payload =
  payload_to :: "string option"
  payload_url :: "string option"
  payload_delayMs :: "rat option"

record job =
  jid :: job_id
  jtype :: string
  job_payload :: payload
  status :: job_status
  retryCount :: "nat option"
  maxRetries :: nat
  executionTimeSecs :: rat
  delayMs :: rat
  priority :: "int option"
  createdAt :: int

record delay_progress =
  totalDelayMs :: "rat option"
  delayedSoFarMs :: "rat option"

record pcb =
  pcb_id :: nat
  jobId :: job_id
  pcb_status :: pcb_status
  startTime :: "int option"
  elapsedTime :: "rat option"
  expectedDuration :: "rat option"
  deadlineTime :: "rat option"
  pcb_executionTimeSecs :: "rat option"
  executionTimeDoneSecs :: "rat option"
  delayProgress :: delay_progress
  suspendedAt :: "int option"
  resumeCount :: nat

text \<open>The two MongoDB collections, each a list of documents in natural order.\<close>

record db =
  jobs :: "job list"
  pcbs :: "pcb list"

text \<open>
  The Redis keys the code writes: \<^verbatim>\<open>`jobQueue:${priority}`\<close> (with the priority as the
  template prints it, \<^verbatim>\<open>undefined\<close> included) and the bare key \<^verbatim>\<open>"jobQueue"\<close>.
\<close>

datatype redis_key = JobQueueLane "int option" | JobQueue

text \<open>
  A Redis list has its head on the left: \<^verbatim>\<open>lPush\<close> adds at the head, \<^verbatim>\<open>rPop\<close> removes
  at the tail. The sorted set \<^verbatim>\<open>delayedQueue\<close> maps a member to its score.
\<close>

record redis =
  lists :: "redis_key \<Rightarrow> job_id list"
  delayedQueue :: "job_id \<rightharpoonup> int"

section \<open>Redis primitives\<close>

definition lPush :: "redis \<Rightarrow> redis_key \<Rightarrow> job_id \<Rightarrow> redis" where
  "lPush r k v = r\<lparr>lists := (lists r)(k := v # lists r k)\<rparr>"

definition rPop :: "redis \<Rightarrow> redis_key \<Rightarrow> job_id option \<times> redis" where
  "rPop r k =
     (case lists r k of
        [] \<Rightarrow> (None, r)
      | x # xs \<Rightarrow> (Some (last (x # xs)), r\<lparr>lists := (lists r)(k := butlast (x # xs))\<rparr>))"

definition lLen :: "redis \<Rightarrow> redis_key \<Rightarrow> nat" where
  "lLen r k = length (lists r k)"

definition zAdd :: "redis \<Rightarrow> int \<Rightarrow> job_id \<Rightarrow> redis" where
  "zAdd r score v = r\<lparr>delayedQueue := (delayedQueue r)(v \<mapsto> score)\<rparr>"

definition lane :: "nat \<Rightarrow> redis_key" where
  "lane p = JobQueueLane (Some (int p))"

section \<open>Dequeue of the dispatch loop (worker.js, processJobs)\<close>

text \<open>
  \<^verbatim>\<open>for (let priority = 10; priority >= 1; priority--) { result = rPop(...); if (result) break; }\<close>
  The counter runs from its argument down to 1; the result carries the lane the
  identifier came from.
\<close>

fun popFrom :: "nat \<Rightarrow> redis \<Rightarrow> (job_id \<times> nat) option \<times> redis" where
  "popFrom 0 r = (None, r)"
| "popFrom (Suc n) r =
     (case rPop r (lane (Suc n)) of
        (Some v, r') \<Rightarrow> (Some (v, Suc n), r')
      | (None, r') \<Rightarrow> popFrom n r')"

definition popHighest :: "redis \<Rightarrow> (job_id \<times> nat) option \<times> redis" where
  "popHighest r = popFrom 10 r"

text \<open>Enqueueing a sequence of identifiers on one key, and dequeueing \<open>n\<close> times from it.\<close>

fun lPush_all :: "redis \<Rightarrow> redis_key \<Rightarrow> job_id list \<Rightarrow> redis" where
  "lPush_all r k [] = r"
| "lPush_all r k (v # vs) = lPush_all (lPush r k v) k vs"

fun rPop_n :: "nat \<Rightarrow> redis \<Rightarrow> redis_key \<Rightarrow> job_id option list" where
  "rPop_n 0 r k = []"
| "rPop_n (Suc n) r k = (case rPop r k of (res, r') \<Rightarrow> res # rPop_n n r' k)"

section \<open>Priority aging (PriorityAging) and the preemption oracle (PCBManager)\<close>

text \<open>\<^verbatim>\<open>Math.floor((Date.now() - job.createdAt.getTime()) / 1000)\<close>: times are epoch milliseconds.\<close>

definition getJobAge :: "int \<Rightarrow> job \<Rightarrow> int" where
  "getJobAge now j = (now - createdAt j) div 1000"

text \<open>\<^verbatim>\<open>job.priority || 5\<close>: an undefined priority and the priority 0 are falsy.\<close>

definition basePriority :: "job \<Rightarrow> int" where
  "basePriority j = (case priority j of None \<Rightarrow> 5 | Some p \<Rightarrow> if p = 0 then 5 else p)"

definition getEffectivePriority :: "int \<Rightarrow> job \<Rightarrow> int" where
  "getEffectivePriority now j = min (basePriority j + getJobAge now j) 10"

text \<open>
  The probe of checkPreemption: \<^verbatim>\<open>highestWaitingPriority\<close> starts at 0 and becomes the
  first lane, from the counter down to 1, whose length is positive.
\<close>

fun highestWaitingFrom :: "nat \<Rightarrow> redis \<Rightarrow> nat" where
  "highestWaitingFrom 0 r = 0"
| "highestWaitingFrom (Suc n) r =
     (if lLen r (lane (Suc n)) > 0 then Suc n else highestWaitingFrom n r)"

definition checkPreemption :: "int \<Rightarrow> redis \<Rightarrow> job \<Rightarrow> bool" where
  "checkPreemption now r currentJob =
     (let currentEffectivePriority = getEffectivePriority now currentJob;
          highestWaitingPriority = highestWaitingFrom 10 r
      in int highestWaitingPriority > currentEffectivePriority)"

section \<open>MongoDB primitives\<close>

text \<open>
  mongoose gives a loaded document the schema's default for every path that the stored
  document lacks: a job read from the store has \<^verbatim>\<open>retryCount\<close> 0 and \<^verbatim>\<open>priority\<close> 5 when
  the stored document has no such field. (The other paths with a default, \<^verbatim>\<open>status\<close>,
  \<^verbatim>\<open>maxRetries\<close>, \<^verbatim>\<open>executionTimeSecs\<close>, \<^verbatim>\<open>delayMs\<close> and \<^verbatim>\<open>createdAt\<close>, are present in
  every stored document of the model.)
\<close>

definition applyDefaults :: "job \<Rightarrow> job" where
  "applyDefaults j =
     j\<lparr>retryCount := Some (case retryCount j of None \<Rightarrow> 0 | Some n \<Rightarrow> n),
       priority := Some (case priority j of None \<Rightarrow> 5 | Some p \<Rightarrow> p)\<rparr>"

text \<open>
  \<open>findById\<close> is the first stored document with the identifier; \<open>Job_findById\<close> is
  \<^verbatim>\<open>Job.findById\<close>, the document as the code gets it. \<^verbatim>\<open>PCB.findOne({ jobId })\<close> returns
  the first PCB of the job.
\<close>

fun findById :: "job_id \<Rightarrow> job list \<Rightarrow> job option" where
  "findById i [] = None"
| "findById i (x # xs) = (if jid x = i then Some x else findById i xs)"

definition Job_findById :: "job_id \<Rightarrow> db \<Rightarrow> job option" where
  "Job_findById i d = map_option applyDefaults (findById i (jobs d))"

fun findOnePCB :: "job_id \<Rightarrow> pcb list \<Rightarrow> pcb option" where
  "findOnePCB i [] = None"
| "findOnePCB i (x # xs) = (if jobId x = i then Some x else findOnePCB i xs)"

text \<open>
  \<^verbatim>\<open>save()\<close> of a loaded document writes it over the stored document of the same \<^verbatim>\<open>_id\<close>
  (mongoose sends the paths changed since the document was loaded or last saved, and
  the defaults it filled in; with one actor writing at a time that is the whole
  document). When the stored document is gone, nothing is stored and the promise
  rejects with a DocumentNotFoundError. The errors of the libraries are named by
  their class; their messages all differ from \<^verbatim>\<open>PREEMPTED\<close>, the one message the code
  tests. \<^verbatim>\<open>save()\<close> also runs the validators of the schema (a type, a priority from 1 to
  10). Stored documents are taken to pass them, and the code writes no value that
  fails them (a status of the enumeration, a retry count, a priority
  \<open>min (base + age) 10\<close> above the one it replaces), so the model has no rejection by
  validation. The one statement on a stored priority of 0, which the schema does not
  allow, is about the resumption scanner, which replaces that priority before it saves.
\<close>

fun save_job :: "job \<Rightarrow> job list \<Rightarrow> job list" where
  "save_job j [] = []"
| "save_job j (x # xs) = (if jid x = jid j then j # xs else x # save_job j xs)"

definition saveJob :: "job \<Rightarrow> db \<Rightarrow> string + db" where
  "saveJob j d =
     (if jid j \<in> set (map jid (jobs d))
      then Inr (d\<lparr>jobs := save_job j (jobs d)\<rparr>)
      else Inl ''DocumentNotFoundError'')"

fun save_pcb :: "pcb \<Rightarrow> pcb list \<Rightarrow> pcb list" where
  "save_pcb p [] = []"
| "save_pcb p (x # xs) = (if pcb_id x = pcb_id p then p # xs else x # save_pcb p xs)"

definition savePCB :: "pcb \<Rightarrow> db \<Rightarrow> string + db" where
  "savePCB p d =
     (if pcb_id p \<in> set (map pcb_id (pcbs d))
      then Inr (d\<lparr>pcbs := save_pcb p (pcbs d)\<rparr>)
      else Inl ''DocumentNotFoundError'')"

text \<open>
  \<^verbatim>\<open>PCB.create\<close> appends a new document under a new \<^verbatim>\<open>_id\<close>, one that no document of the
  collection has, and returns it.
\<close>

definition newObjectId :: "pcb list \<Rightarrow> nat" where
  "newObjectId ps = Suc (foldr max (map pcb_id ps) 0)"

definition createPCB :: "pcb \<Rightarrow> db \<Rightarrow> pcb \<times> db" where
  "createPCB p d =
     (let created = p\<lparr>pcb_id := newObjectId (pcbs d)\<rparr>
      in (created, d\<lparr>pcbs := pcbs d @ [created]\<rparr>))"

section \<open>The execution controller and the payload handlers\<close>

text \<open>
  What the successive calls of checkPreemption see during one run: the clock and the
  contents of Redis, which the other loops and processes change meanwhile.
\<close>

type_synonym probes = "nat \<Rightarrow> int \<times> redis"

text \<open>
  The work loop of executionOnlyExecutor. Each round sleeps one slice of at most
  100 ms, adds it to \<^verbatim>\<open>executedSoFar\<close> and then asks the oracle. The result is
  \<open>Some (k, executedSoFar)\<close> when probe \<open>k\<close> answered true (the \<^verbatim>\<open>return\<close> inside the
  loop) and \<open>None\<close> when the loop ran to its end.
\<close>

function execution_loop :: "probes \<Rightarrow> job \<Rightarrow> nat \<Rightarrow> rat \<Rightarrow> rat \<Rightarrow> (nat \<times> rat) option" where
  "execution_loop pr j k remainingMs executedSoFar =
     (if executedSoFar < remainingMs then
        (if checkPreemption (fst (pr k)) (snd (pr k)) j
         then Some (k, executedSoFar + min 100 (remainingMs - executedSoFar))
         else execution_loop pr j (Suc k) remainingMs
                (executedSoFar + min 100 (remainingMs - executedSoFar)))
      else None)"
  by pat_completeness auto
termination
proof (relation "measure (\<lambda>(pr, j, k, remainingMs, executedSoFar).
          nat \<lceil>(remainingMs - executedSoFar) / 100\<rceil>)")
  show "wf (measure (\<lambda>(pr, j, k, remainingMs, executedSoFar).
          nat \<lceil>(remainingMs - executedSoFar) / 100\<rceil>))" by simp
next
  fix pr :: probes and j :: job and k :: nat and remainingMs executedSoFar :: rat
  assume lt: "executedSoFar < remainingMs"
  define x where "x = remainingMs - executedSoFar"
  have e: "remainingMs - (executedSoFar + min 100 x) = x - min 100 x" by (simp add: x_def)
  have pos: "0 < \<lceil>x / 100\<rceil>" using lt by (simp add: x_def)
  have "\<lceil>(x - min 100 x) / 100\<rceil> < \<lceil>x / 100\<rceil>"
  proof (cases "x \<le> 100")
    case True
    then have "min 100 x = x" by simp
    with pos show ?thesis by simp
  next
    case False
    then have m: "min 100 x = 100" by simp
    have d: "(x - 100) / 100 = x / 100 - 1" by (simp add: diff_divide_distrib)
    have "\<lceil>(x - 100) / 100\<rceil> = \<lceil>x / 100\<rceil> - 1" unfolding d by (rule ceiling_diff_one)
    then show ?thesis unfolding m by linarith
  qed
  with pos have "nat \<lceil>(x - min 100 x) / 100\<rceil> < nat \<lceil>x / 100\<rceil>" by linarith
  then show "((pr, j, Suc k, remainingMs, executedSoFar + min 100 (remainingMs - executedSoFar)),
         (pr, j, k, remainingMs, executedSoFar))
        \<in> measure (\<lambda>(pr, j, k, remainingMs, executedSoFar).
          nat \<lceil>(remainingMs - executedSoFar) / 100\<rceil>)"
    unfolding in_measure prod.case e [unfolded x_def] x_def .
qed

declare execution_loop.simps [simp del]

text \<open>
  executionOnlyExecutor (execution.executor.js) in its three parts. \<open>t0\<close> is the clock
  when the executor starts; probe \<open>k\<close> gives the clock and the Redis contents that the
  \<open>k\<close>-th call of checkPreemption sees.

  \<open>executorStart\<close> is the part before the loop: the PCB of the job is looked up; a job
  without one gets a new PCB, and a SUSPENDED one is set to RUNNING with resumeCount
  incremented (in memory: the next save stores it). \<open>newExecutionPCB\<close> holds the fields
  given to \<^verbatim>\<open>PCB.create\<close>, which assigns the \<open>pcb_id\<close>.
\<close>

definition newExecutionPCB :: "int \<Rightarrow> job \<Rightarrow> pcb" where
  "newExecutionPCB t0 j =
     \<lparr>pcb_id = 0, jobId = jid j, pcb_status = PCB_RUNNING, startTime = Some t0,
      elapsedTime = Some 0, expectedDuration = Some (executionTimeSecs j * 1000),
      deadlineTime = Some (of_int t0 + executionTimeSecs j * 1000),
      pcb_executionTimeSecs = Some (executionTimeSecs j), executionTimeDoneSecs = Some 0,
      delayProgress = \<lparr>totalDelayMs = None, delayedSoFarMs = None\<rparr>,
      suspendedAt = None, resumeCount = 0\<rparr>"

definition executorStart :: "int \<Rightarrow> job \<Rightarrow> db \<Rightarrow> pcb \<times> db" where
  "executorStart t0 j d =
     (case findOnePCB (jid j) (pcbs d) of
        None \<Rightarrow> createPCB (newExecutionPCB t0 j) d
      | Some p \<Rightarrow>
          if pcb_status p = PCB_SUSPENDED
          then (p\<lparr>pcb_status := PCB_RUNNING, resumeCount := resumeCount p + 1\<rparr>, d)
          else (p, d))"

text \<open>
  \<open>executorLoop\<close> is the loop on the remaining time
  \<^verbatim>\<open>job.executionTimeSecs * 1000 - pcb.executionTimeDoneSecs * 1000\<close>. With an undefined
  checkpoint the remaining time is NaN and the loop is not entered.
\<close>

definition executorLoop :: "probes \<Rightarrow> job \<Rightarrow> pcb \<Rightarrow> (nat \<times> rat) option" where
  "executorLoop pr j p0 =
     (case executionTimeDoneSecs p0 of
        None \<Rightarrow> None
      | Some doneSecs \<Rightarrow>
          execution_loop pr j 0 (executionTimeSecs j * 1000 - doneSecs * 1000) 0)"

text \<open>
  \<open>executorFinish\<close> is what the executor does with the outcome of the loop. After a
  preemption at probe \<open>k\<close> it saves the PCB as SUSPENDED with the new checkpoint, sets
  the job object's status to SUSPENDED, saves the job and returns. After the loop's
  end it saves the PCB as COMPLETED. The result is the settlement of the executor's
  promise (\<open>Inl\<close> the message of a thrown error), the job object as the caller holds
  it afterwards, and the database.
\<close>

definition executorFinish ::
  "probes \<Rightarrow> job \<Rightarrow> pcb \<Rightarrow> db \<Rightarrow> (nat \<times> rat) option \<Rightarrow> (string + unit) \<times> job \<times> db" where
  "executorFinish pr j p0 d0 outcome =
     (case outcome of
        Some (k, executedSoFar) \<Rightarrow>
          (let p1 = p0\<lparr>pcb_status := PCB_SUSPENDED,
                        executionTimeDoneSecs :=
                          map_option (\<lambda>doneSecs. (doneSecs * 1000 + executedSoFar) / 1000)
                            (executionTimeDoneSecs p0),
                        suspendedAt := Some (fst (pr k))\<rparr>
           in case savePCB p1 d0 of
                Inl e \<Rightarrow> (Inl e, j, d0)
              | Inr d1 \<Rightarrow>
                  (let j1 = j\<lparr>status := SUSPENDED\<rparr>
                   in case saveJob j1 d1 of
                        Inl e \<Rightarrow> (Inl e, j1, d1)
                      | Inr d2 \<Rightarrow> (Inr (), j1, d2)))
      | None \<Rightarrow>
          (let p1 = p0\<lparr>pcb_status := PCB_COMPLETED,
                        executionTimeDoneSecs := Some (executionTimeSecs j)\<rparr>
           in case savePCB p1 d0 of
                Inl e \<Rightarrow> (Inl e, j, d0)
              | Inr d1 \<Rightarrow> (Inr (), j, d1)))"

definition executionOnlyExecutor ::
  "probes \<Rightarrow> int \<Rightarrow> job \<Rightarrow> db \<Rightarrow> (string + unit) \<times> job \<times> db" where
  "executionOnlyExecutor pr t0 j d =
     (case executorStart t0 j d of
        (p0, d0) \<Rightarrow> executorFinish pr j p0 d0 (executorLoop pr j p0))"

text \<open>
  The payload handlers (email.executor.js, webhook.executor.js): \<^verbatim>\<open>if (!to)\<close> and
  \<^verbatim>\<open>if (!url)\<close> hold for an absent field and for the empty string.
\<close>

definition emailExecutor :: "job \<Rightarrow> string + unit" where
  "emailExecutor j =
     (case payload_to (job_payload j) of
        None \<Rightarrow> Inl ''Missing email recipient''
      | Some a \<Rightarrow> if a = [] then Inl ''Missing email recipient'' else Inr ())"

definition webhookExecutor :: "job \<Rightarrow> string + unit" where
  "webhookExecutor j =
     (case payload_url (job_payload j) of
        None \<Rightarrow> Inl ''Missing webhook URL''
      | Some u \<Rightarrow> if u = [] then Inl ''Missing webhook URL'' else Inr ())"

text \<open>executeJob (jobExecutor.js): the switch on the job type.\<close>

definition executeJob ::
  "probes \<Rightarrow> int \<Rightarrow> job \<Rightarrow> db \<Rightarrow> (string + unit) \<times> job \<times> db" where
  "executeJob pr t0 j d =
     (if jtype j = ''DELAY'' then executionOnlyExecutor pr t0 j d
      else if jtype j = ''EMAIL'' then executionOnlyExecutor pr t0 j d
      else if jtype j = ''WEBHOOK'' then executionOnlyExecutor pr t0 j d
      else (Inl (''Unknown job type: '' @ jtype j), j, d))"

section \<open>The delay executor with context switching\<close>

text \<open>\<^verbatim>\<open>x % 500 === 0\<close>: \<open>x\<close> is a whole multiple of 500.\<close>

definition multipleOf500 :: "rat \<Rightarrow> bool" where
  "multipleOf500 x = (x / 500 = of_int \<lfloor>x / 500\<rfloor>)"

text \<open>
  The two loops of delayExecutorWithContextSwitch have one shape: while the time
  spent is below the remaining time, ask the oracle first; on true, record the
  suspension in the PCB, save it and throw \<^verbatim>\<open>PREEMPTED\<close>; otherwise sleep a slice of
  at most 100 ms and, when the time spent has become a multiple of 500, record the
  progress in the PCB and save it. \<open>onSuspend\<close> and \<open>onPeriodic\<close> are the two PCB updates
  of a loop. The result is \<open>Inl\<close> the message of the error that left the loop
  (\<^verbatim>\<open>PREEMPTED\<close>, or the error of a rejected save) or \<open>Inr ()\<close> at the loop's end, with the
  next probe and the PCB and database the loop leaves.
\<close>

function slicedLoop ::
  "probes \<Rightarrow> job \<Rightarrow> (rat \<Rightarrow> int \<Rightarrow> pcb \<Rightarrow> pcb) \<Rightarrow> (rat \<Rightarrow> pcb \<Rightarrow> pcb) \<Rightarrow>
   nat \<Rightarrow> rat \<Rightarrow> rat \<Rightarrow> pcb \<Rightarrow> db \<Rightarrow> (string + unit) \<times> nat \<times> pcb \<times> db" where
  "slicedLoop pr j onSuspend onPeriodic k remaining soFar p d =
     (if soFar < remaining then
        (if checkPreemption (fst (pr k)) (snd (pr k)) j
         then (case savePCB (onSuspend soFar (fst (pr k)) p) d of
                 Inl e \<Rightarrow> (Inl e, k, onSuspend soFar (fst (pr k)) p, d)
               | Inr d' \<Rightarrow> (Inl ''PREEMPTED'', k, onSuspend soFar (fst (pr k)) p, d'))
         else if multipleOf500 (soFar + min 100 (remaining - soFar))
         then (case savePCB (onPeriodic (soFar + min 100 (remaining - soFar)) p) d of
                 Inl e \<Rightarrow> (Inl e, Suc k, onPeriodic (soFar + min 100 (remaining - soFar)) p, d)
               | Inr d' \<Rightarrow>
                   slicedLoop pr j onSuspend onPeriodic (Suc k) remaining
                     (soFar + min 100 (remaining - soFar))
                     (onPeriodic (soFar + min 100 (remaining - soFar)) p) d')
         else slicedLoop pr j onSuspend onPeriodic (Suc k) remaining
                (soFar + min 100 (remaining - soFar)) p d)
      else (Inr (), k, p, d))"
  by pat_completeness auto
termination
proof -
  have step: "nat \<lceil>(remaining - (soFar + min 100 (remaining - soFar))) / 100\<rceil>
                < nat \<lceil>(remaining - soFar) / 100\<rceil>"
    if lt: "soFar < remaining" for remaining soFar :: rat
  proof -
    define x where "x = remaining - soFar"
    have e: "remaining - (soFar + min 100 x) = x - min 100 x" by (simp add: x_def)
    have pos: "0 < \<lceil>x / 100\<rceil>" using lt by (simp add: x_def)
    have "\<lceil>(x - min 100 x) / 100\<rceil> < \<lceil>x / 100\<rceil>"
    proof (cases "x \<le> 100")
      case True
      then have "min 100 x = x" by simp
      with pos show ?thesis by simp
    next
      case False
      then have m: "min 100 x = 100" by simp
      have q: "(x - 100) / 100 = x / 100 - 1" by (simp add: diff_divide_distrib)
      have "\<lceil>(x - 100) / 100\<rceil> = \<lceil>x / 100\<rceil> - 1" unfolding q by (rule ceiling_diff_one)
      then show ?thesis unfolding m by linarith
    qed
    with pos have "nat \<lceil>(x - min 100 x) / 100\<rceil> < nat \<lceil>x / 100\<rceil>" by linarith
    then show ?thesis unfolding e [unfolded x_def] x_def .
  qed
  show ?thesis
  proof (relation "measure (\<lambda>(pr, j, onSuspend, onPeriodic, k, remaining, soFar, p, d).
          nat \<lceil>(remaining - soFar) / 100\<rceil>)")
    show "wf (measure (\<lambda>(pr, j, onSuspend, onPeriodic, k, remaining, soFar, p, d).
          nat \<lceil>(remaining - soFar) / 100\<rceil>))" by simp
  next
    fix pr :: probes and j :: job and onSuspend :: "rat \<Rightarrow> int \<Rightarrow> pcb \<Rightarrow> pcb"
      and onPeriodic :: "rat \<Rightarrow> pcb \<Rightarrow> pcb" and k :: nat and remaining soFar :: rat
      and p :: pcb and d d' :: db
    assume lt: "soFar < remaining"
    from step [OF lt]
    show "((pr, j, onSuspend, onPeriodic, Suc k, remaining,
            soFar + min 100 (remaining - soFar),
            onPeriodic (soFar + min 100 (remaining - soFar)) p, d'),
           (pr, j, onSuspend, onPeriodic, k, remaining, soFar, p, d))
          \<in> measure (\<lambda>(pr, j, onSuspend, onPeriodic, k, remaining, soFar, p, d).
            nat \<lceil>(remaining - soFar) / 100\<rceil>)"
      unfolding in_measure prod.case .
  next
    fix pr :: probes and j :: job and onSuspend :: "rat \<Rightarrow> int \<Rightarrow> pcb \<Rightarrow> pcb"
      and onPeriodic :: "rat \<Rightarrow> pcb \<Rightarrow> pcb" and k :: nat and remaining soFar :: rat
      and p :: pcb and d :: db
    assume lt: "soFar < remaining"
    from step [OF lt]
    show "((pr, j, onSuspend, onPeriodic, Suc k, remaining,
            soFar + min 100 (remaining - soFar), p, d),
           (pr, j, onSuspend, onPeriodic, k, remaining, soFar, p, d))
          \<in> measure (\<lambda>(pr, j, onSuspend, onPeriodic, k, remaining, soFar, p, d).
            nat \<lceil>(remaining - soFar) / 100\<rceil>)"
      unfolding in_measure prod.case .
  qed
qed

declare slicedLoop.simps [simp del]

text \<open>The PCB updates of the delay loop and of the execution loop.\<close>

definition suspendDelay :: "rat \<Rightarrow> rat \<Rightarrow> int \<Rightarrow> pcb \<Rightarrow> pcb" where
  "suspendDelay alreadyDelayed delayedSoFar t p =
     p\<lparr>pcb_status := PCB_SUSPENDED,
       delayProgress := (delayProgress p)\<lparr>delayedSoFarMs := Some (alreadyDelayed + delayedSoFar)\<rparr>,
       suspendedAt := Some t\<rparr>"

definition periodicDelay :: "rat \<Rightarrow> rat \<Rightarrow> pcb \<Rightarrow> pcb" where
  "periodicDelay alreadyDelayed delayedSoFar p =
     p\<lparr>elapsedTime := Some (alreadyDelayed + delayedSoFar)\<rparr>"

definition suspendExecution :: "rat \<Rightarrow> rat \<Rightarrow> int \<Rightarrow> pcb \<Rightarrow> pcb" where
  "suspendExecution executionTimeDoneMs executionDoneSoFar t p =
     p\<lparr>pcb_status := PCB_SUSPENDED,
       executionTimeDoneSecs := Some ((executionTimeDoneMs + executionDoneSoFar) / 1000),
       suspendedAt := Some t\<rparr>"

definition periodicExecution :: "rat \<Rightarrow> rat \<Rightarrow> pcb \<Rightarrow> pcb" where
  "periodicExecution executionTimeDoneMs executionDoneSoFar p =
     p\<lparr>executionTimeDoneSecs := Some ((executionTimeDoneMs + executionDoneSoFar) / 1000)\<rparr>"

text \<open>
  \<^verbatim>\<open>pcb.executionTimeNeededSecs\<close>: the PCB schema has no path of this name, so the read
  gives \<^verbatim>\<open>undefined\<close> for every PCB.
\<close>

definition executionTimeNeededSecs :: "pcb \<Rightarrow> rat option" where
  "executionTimeNeededSecs p = None"

text \<open>
  The fields that delayExecutorWithContextSwitch gives to \<^verbatim>\<open>PCB.create\<close> for a job whose
  payload has the delay \<open>ms\<close>. For a payload without \<^verbatim>\<open>delayMs\<close> the deadline
  \<^verbatim>\<open>new Date(Date.now() + undefined)\<close> is an invalid date: \<^verbatim>\<open>PCB.create\<close> rejects with a
  ValidationError and stores nothing.
\<close>

definition newDelayPCB :: "int \<Rightarrow> job \<Rightarrow> rat \<Rightarrow> pcb" where
  "newDelayPCB t0 j ms =
     \<lparr>pcb_id = 0, jobId = jid j, pcb_status = PCB_RUNNING, startTime = Some t0,
      elapsedTime = Some 0, expectedDuration = Some ms,
      deadlineTime = Some (of_int t0 + ms),
      pcb_executionTimeSecs = Some (executionTimeSecs j), executionTimeDoneSecs = Some 0,
      delayProgress = \<lparr>totalDelayMs = Some ms, delayedSoFarMs = Some 0\<rparr>,
      suspendedAt = None, resumeCount = 0\<rparr>"

definition delayExecutorStart :: "int \<Rightarrow> job \<Rightarrow> db \<Rightarrow> string + pcb \<times> db" where
  "delayExecutorStart t0 j d =
     (case findOnePCB (jid j) (pcbs d) of
        None \<Rightarrow>
          (case payload_delayMs (job_payload j) of
             None \<Rightarrow> Inl ''ValidationError''
           | Some ms \<Rightarrow> Inr (createPCB (newDelayPCB t0 j ms) d))
      | Some p \<Rightarrow>
          if pcb_status p = PCB_SUSPENDED
          then Inr (p\<lparr>pcb_status := PCB_RUNNING, resumeCount := resumeCount p + 1\<rparr>, d)
          else Inr (p, d))"

text \<open>
  delayExecutorWithContextSwitch: the delay phase, then the execution phase. An
  undefined total or spent delay makes \<^verbatim>\<open>remainingDelay\<close> NaN, so the delay loop is
  not entered. \<^verbatim>\<open>pcb.executionTimeSecs || 10\<close> and \<^verbatim>\<open>pcb.executionTimeDoneSecs || 0\<close>
  replace an undefined or zero value.
\<close>

definition delayExecutorWithContextSwitch ::
  "probes \<Rightarrow> int \<Rightarrow> job \<Rightarrow> db \<Rightarrow> (string + unit) \<times> job \<times> db" where
  "delayExecutorWithContextSwitch pr t0 j d =
     (case delayExecutorStart t0 j d of
        Inl e \<Rightarrow> (Inl e, j, d)
      | Inr (p0, d0) \<Rightarrow>
          (let totalDelay = totalDelayMs (delayProgress p0);
               alreadyDelayed = delayedSoFarMs (delayProgress p0);
               (left1, k1, p1, d1) =
                 (case totalDelay of
                    None \<Rightarrow> (Inr (), 0, p0, d0)
                  | Some totalMs \<Rightarrow>
                      (case alreadyDelayed of
                         None \<Rightarrow> (Inr (), 0, p0, d0)
                       | Some alreadyMs \<Rightarrow>
                           slicedLoop pr j (suspendDelay alreadyMs) (periodicDelay alreadyMs)
                             0 (totalMs - alreadyMs) 0 p0 d0))
           in case left1 of
                Inl e \<Rightarrow> (Inl e, j, d1)
              | Inr u \<Rightarrow>
                  (let p2 = p1\<lparr>pcb_status := PCB_COMPLETED, elapsedTime := totalDelay\<rparr>
                   in case savePCB p2 d1 of
                        Inl e \<Rightarrow> (Inl e, j, d1)
                      | Inr d2 \<Rightarrow>
                          (let executionTimeNeededMs =
                                 (case pcb_executionTimeSecs p2 of
                                    None \<Rightarrow> 10
                                  | Some x \<Rightarrow> if x = 0 then 10 else x) * 1000;
                               executionTimeDoneMs =
                                 (case executionTimeDoneSecs p2 of None \<Rightarrow> 0 | Some x \<Rightarrow> x) * 1000;
                               (left2, k2, p3, d3) =
                                 slicedLoop pr j (suspendExecution executionTimeDoneMs)
                                   (periodicExecution executionTimeDoneMs)
                                   k1 (executionTimeNeededMs - executionTimeDoneMs) 0 p2 d2
                           in case left2 of
                                Inl e \<Rightarrow> (Inl e, j, d3)
                              | Inr u \<Rightarrow>
                                  (case savePCB (p3\<lparr>pcb_status := PCB_COMPLETED,
                                                    executionTimeDoneSecs := executionTimeNeededSecs p3\<rparr>) d3 of
                                     Inl e \<Rightarrow> (Inl e, j, d3)
                                   | Inr d4 \<Rightarrow> (Inr (), j, d4))))))"

section \<open>The dispatch loop (worker.js, processJobs)\<close>

text \<open>
  The catch block, entered with the error's message, the popped identifier and the
  job object. \<open>now\<close> is the clock in the block. The result is the job object after the
  block, the state, and \<open>Inl\<close> the error when the block's own save was rejected: that
  error leaves processJobs, whose loop ends with it.
\<close>

definition processJobs_catch ::
  "int \<Rightarrow> string \<Rightarrow> job_id \<Rightarrow> job \<Rightarrow> db \<times> redis \<Rightarrow> (string + unit) \<times> job \<times> db \<times> redis" where
  "processJobs_catch now message popped j s =
     (case s of (d, r) \<Rightarrow>
        if message = ''PREEMPTED'' then (Inr (), j, d, r)
        else
          (let rc = (case retryCount j of None \<Rightarrow> 0 | Some n \<Rightarrow> n) + 1;
               j1 = j\<lparr>retryCount := Some rc\<rparr>
           in if rc \<le> maxRetries j1
              then (let delay = 2 ^ rc * 1000;
                        retryAt = now + delay;
                        r1 = zAdd r retryAt popped;
                        j2 = j1\<lparr>status := PENDING\<rparr>
                    in case saveJob j2 d of
                         Inl e \<Rightarrow> (Inl e, j2, d, r1)
                       | Inr d1 \<Rightarrow> (Inr (), j2, d1, r1))
              else (let j2 = j1\<lparr>status := FAILED\<rparr>
                    in case saveJob j2 d of
                         Inl e \<Rightarrow> (Inl e, j2, d, r)
                       | Inr d1 \<Rightarrow> (Inr (), j2, d1, r))))"

text \<open>
  One iteration of the loop in which the executor settles before the timer: dequeue,
  load, mark RUNNING, execute, then mark SUCCESS or run the catch block. \<open>t0\<close> is the
  clock at the start of the execution and \<open>t1\<close> the clock in the catch block. The
  result is the state at the end of the iteration.
\<close>

definition processJobs_iteration ::
  "probes \<Rightarrow> int \<Rightarrow> int \<Rightarrow> db \<times> redis \<Rightarrow> db \<times> redis" where
  "processJobs_iteration pr t0 t1 s =
     (case s of (d, r) \<Rightarrow>
        (case popHighest r of
           (None, r') \<Rightarrow> (d, r')
         | (Some (popped, p), r') \<Rightarrow>
             (case Job_findById popped d of
                None \<Rightarrow> (d, r')
              | Some j0 \<Rightarrow>
                  (let j1 = j0\<lparr>status := RUNNING\<rparr>
                   in case saveJob j1 d of
                        Inl e \<Rightarrow> snd (snd (processJobs_catch t1 e popped j1 (d, r')))
                      | Inr d1 \<Rightarrow>
                          (case executeJob pr t0 j1 d1 of
                             (Inr u, j2, d2) \<Rightarrow>
                               (let j3 = j2\<lparr>status := SUCCESS\<rparr>
                                in case saveJob j3 d2 of
                                     Inl e \<Rightarrow>
                                       snd (snd (processJobs_catch t1 e popped j3 (d2, r')))
                                   | Inr d3 \<Rightarrow> (d3, r'))
                           | (Inl message, j2, d2) \<Rightarrow>
                               snd (snd (processJobs_catch t1 message popped j2 (d2, r'))))))))"

section \<open>The execution timeout (worker.js, withTimeout)\<close>





section \<open>Shutdown (worker.js, shutdown)\<close>

text \<open>
  \<open>activeJob\<close> is the module variable of that name. When the save is rejected the error
  leaves the handler: nothing is pushed.
\<close>

definition shutdown :: "job option \<Rightarrow> db \<times> redis \<Rightarrow> db \<times> redis" where
  "shutdown activeJob s =
     (case s of (d, r) \<Rightarrow>
        (case activeJob of
           None \<Rightarrow> (d, r)
         | Some j \<Rightarrow>
             (let j1 = j\<lparr>status := PENDING\<rparr>
              in case saveJob j1 d of
                   Inl e \<Rightarrow> (d, r)
                 | Inr d1 \<Rightarrow> (d1, lPush r JobQueue (jid j1)))))"

section \<open>The resumption scanner (worker.js, processSuspendedJobs)\<close>

text \<open>
  \<^verbatim>\<open>PCB.find({ status: "SUSPENDED" }).populate("jobId")\<close>: each matching PCB with its job
  document as loaded, or \<^verbatim>\<open>null\<close> when the job no longer exists.
\<close>

definition findSuspended :: "db \<Rightarrow> (pcb \<times> job option) list" where
  "findSuspended d =
     map (\<lambda>p. (p, Job_findById (jobId p) d))
       (filter (\<lambda>p. pcb_status p = PCB_SUSPENDED) (pcbs d))"

text \<open>
  The body of the scanner's loop. Reading \<^verbatim>\<open>job.priority\<close> of a null job throws a
  TypeError; that and the error of a rejected save are caught by the try block around
  the loop, which ends the pass. The comparison \<^verbatim>\<open>effectivePriority > job.priority\<close> is
  false for an undefined priority (which a loaded document never has).
\<close>

fun resumeEach :: "int \<Rightarrow> (pcb \<times> job option) list \<Rightarrow> db \<times> redis \<Rightarrow> (string + unit) \<times> db \<times> redis" where
  "resumeEach now [] s = (Inr (), s)"
| "resumeEach now ((p, None) # rest) s = (Inl ''TypeError'', s)"
| "resumeEach now ((p, Some j) # rest) (d, r) =
     (let effectivePriority = getEffectivePriority now j;
          boosted = (case priority j of None \<Rightarrow> False | Some q \<Rightarrow> effectivePriority > q);
          j1 = (if boosted then j\<lparr>priority := Some effectivePriority\<rparr> else j)
      in case (if boosted then saveJob j1 d else Inr d) of
           Inl e \<Rightarrow> (Inl e, d, r)
         | Inr d1 \<Rightarrow>
             (let r1 = lPush r (JobQueueLane (priority j1)) (jid j1)
              in case savePCB (p\<lparr>pcb_status := PCB_READY\<rparr>) d1 of
                   Inl e \<Rightarrow> (Inl e, d1, r1)
                 | Inr d2 \<Rightarrow> resumeEach now rest (d2, r1)))"

definition processSuspendedJobs_iteration :: "int \<Rightarrow> db \<times> redis \<Rightarrow> db \<times> redis" where
  "processSuspendedJobs_iteration now s = snd (resumeEach now (findSuspended (fst s)) s)"

section \<open>The recovery coordinator (RecoveryService.js)\<close>

text \<open>\<^verbatim>\<open>Job.find({ status })\<close>: the matching documents in natural order, as loaded.\<close>

definition findJobs :: "job_status \<Rightarrow> db \<Rightarrow> job list" where
  "findJobs s d = map applyDefaults (filter (\<lambda>j. status j = s) (jobs d))"

text \<open>The three loops of recoverJobs, each over the documents its query returned.\<close>

fun requeuePending :: "job list \<Rightarrow> redis \<Rightarrow> redis" where
  "requeuePending [] r = r"
| "requeuePending (j # js) r =
     requeuePending js (lPush r (JobQueueLane (priority j)) (jid j))"

fun recoverRunning :: "job list \<Rightarrow> db \<times> redis \<Rightarrow> (string + unit) \<times> db \<times> redis" where
  "recoverRunning [] s = (Inr (), s)"
| "recoverRunning (j # js) (d, r) =
     (let j1 = j\<lparr>status := PENDING\<rparr>
      in case saveJob j1 d of
           Inl e \<Rightarrow> (Inl e, d, r)
         | Inr d1 \<Rightarrow> recoverRunning js (d1, lPush r (JobQueueLane (priority j1)) (jid j1)))"

text \<open>
  In the third loop the PCB is saved as READY before \<^verbatim>\<open>job.priority\<close> is read; for a
  PCB whose job no longer exists that read throws a TypeError, which leaves the loop.
\<close>

fun recoverSuspended ::
  "(pcb \<times> job option) list \<Rightarrow> db \<times> redis \<Rightarrow> (string + unit) \<times> db \<times> redis" where
  "recoverSuspended [] s = (Inr (), s)"
| "recoverSuspended ((p, populated) # rest) (d, r) =
     (case savePCB (p\<lparr>pcb_status := PCB_READY\<rparr>) d of
        Inl e \<Rightarrow> (Inl e, d, r)
      | Inr d1 \<Rightarrow>
          (case populated of
             None \<Rightarrow> (Inl ''TypeError'', d1, r)
           | Some j \<Rightarrow> recoverSuspended rest (d1, lPush r (JobQueueLane (priority j)) (jid j))))"

text \<open>
  recoverJobs: the whole body is one try block whose catch only logs, so an error ends
  the recovery with the state reached so far.
\<close>

definition recoverJobs :: "db \<times> redis \<Rightarrow> db \<times> redis" where
  "recoverJobs s =
     (case s of (d, r) \<Rightarrow>
        (let pendingJobs = findJobs PENDING d;
             r1 = requeuePending pendingJobs r;
             runningJobs = findJobs RUNNING d
         in case recoverRunning runningJobs (d, r1) of
              (Inl e, s2) \<Rightarrow> s2
            | (Inr u, d2, r2) \<Rightarrow>
                (let suspendedPCBs = findSuspended d2
                 in snd (recoverSuspended suspendedPCBs (d2, r2)))))"

section \<open>Example states\<close>

definition emptyRedis :: redis where
  "emptyRedis = \<lparr>lists = (\<lambda>k. []), delayedQueue = Map.empty\<rparr>"

text \<open>Lane 3 holds job 7; lane 9 holds job 8 (pushed first) and job 11.\<close>

definition busyRedis :: redis where
  "busyRedis = lPush (lPush (lPush emptyRedis (lane 3) 7) (lane 9) 8) (lane 9) 11"

definition emptyPayload :: payload where
  "emptyPayload = \<lparr>payload_to = None, payload_url = None, payload_delayMs = None\<rparr>"

text \<open>A priority-3 job created at time 0 that needs one second of work.\<close>

definition jobA :: job where
  "jobA = \<lparr>jid = 21, jtype = ''DELAY'', job_payload = emptyPayload, status = PENDING,
            retryCount = Some 0, maxRetries = 3, executionTimeSecs = 1, delayMs = 0,
            priority = Some 3, createdAt = 0\<rparr>"

text \<open>Probes that always see \<open>busyRedis\<close> at time 100, or an empty Redis at time 3000.\<close>

definition busyProbes :: probes where
  "busyProbes k = (100, busyRedis)"

definition quietProbes :: probes where
  "quietProbes k = (3000, emptyRedis)"

text \<open>A database that holds only \<open>jobA\<close>, and a Redis with its identifier queued on lane 3.\<close>

definition db1 :: db where
  "db1 = \<lparr>jobs = [jobA], pcbs = []\<rparr>"

definition redis1 :: redis where
  "redis1 = lPush emptyRedis (lane 3) 21"

text \<open>
  A preemption, a pass of the resumption scanner at time 2000 and the run that follows.
\<close>

definition afterPreemption :: "db \<times> redis" where
  "afterPreemption = processJobs_iteration busyProbes 0 200 (db1, redis1)"

definition afterScan :: "db \<times> redis" where
  "afterScan = processSuspendedJobs_iteration 2000 afterPreemption"

definition afterResume :: "db \<times> redis" where
  "afterResume = processJobs_iteration quietProbes 3000 5000 afterScan"

text \<open>A WEBHOOK job whose payload has no url, alone in its database.\<close>

definition hookJob :: job where
  "hookJob = jobA\<lparr>jtype := ''WEBHOOK''\<rparr>"

definition hookDb :: db where
  "hookDb = \<lparr>jobs = [hookJob], pcbs = []\<rparr>"

text \<open>A job of a type that executeJob does not know, alone in its database.\<close>

definition oddJob :: job where
  "oddJob = jobA\<lparr>jtype := ''SMS''\<rparr>"

definition oddDb :: db where
  "oddDb = \<lparr>jobs = [oddJob], pcbs = []\<rparr>"








text \<open>A DELAY job with a delay of 200 ms and one second of work, alone in its database.\<close>

definition delayJob :: job where
  "delayJob = jobA\<lparr>job_payload := emptyPayload\<lparr>payload_delayMs := Some 200\<rparr>\<rparr>"

definition delayDb :: db where
  "delayDb = \<lparr>jobs = [delayJob], pcbs = []\<rparr>"

text \<open>
  A store after a crash: \<open>jobA\<close> is PENDING, job 22 was RUNNING, and job 23 (priority 5)
  was preempted, so its PCB is SUSPENDED.
\<close>

definition jobR :: job where
  "jobR = jobA\<lparr>jid := 22, status := RUNNING\<rparr>"

definition jobS :: job where
  "jobS = jobA\<lparr>jid := 23, status := SUSPENDED, priority := Some 5\<rparr>"

definition pcbS :: pcb where
  "pcbS = (newExecutionPCB 0 jobS)\<lparr>pcb_id := 32, pcb_status := PCB_SUSPENDED,
             executionTimeDoneSecs := Some (1 / 10), suspendedAt := Some 100\<rparr>"

definition crashedDb :: db where
  "crashedDb = \<lparr>jobs = [jobA, jobR, jobS], pcbs = [pcbS]\<rparr>"

text \<open>
  A store with two SUSPENDED PCBs, the first of which belongs to job 99, which has
  been deleted.
\<close>

definition orphanDb :: db where
  "orphanDb = \<lparr>jobs = [jobS], pcbs = [pcbS\<lparr>pcb_id := 31, jobId := 99\<rparr>, pcbS]\<rparr>"

text \<open>
  An old job document that carries no priority, preempted in its run: its status and
  its PCB are SUSPENDED.
\<close>

definition legacyJob :: job where
  "legacyJob = jobA\<lparr>status := SUSPENDED, priority := None\<rparr>"


section \<open>Properties of the queue primitives\<close>

lemma rPop_empty: "lists r k = [] \<Longrightarrow> rPop r k = (None, r)"
  by (simp add: rPop_def)

lemma rPop_nonempty:
  "lists r k \<noteq> [] \<Longrightarrow>
   rPop r k = (Some (last (lists r k)), r\<lparr>lists := (lists r)(k := butlast (lists r k))\<rparr>)"
  by (cases "lists r k") (simp_all add: rPop_def)

lemma popFrom_all_empty:
  "(\<forall>p\<in>{1..n}. lists r (lane p) = []) \<Longrightarrow> popFrom n r = (None, r)"
  by (induction n) (simp_all add: rPop_empty)

lemma popFrom_hit:
  "p \<in> {1..n} \<Longrightarrow> lists r (lane p) \<noteq> [] \<Longrightarrow> (\<forall>q\<in>{p<..n}. lists r (lane q) = []) \<Longrightarrow>
   popFrom n r = (Some (last (lists r (lane p)), p),
                  r\<lparr>lists := (lists r)(lane p := butlast (lists r (lane p)))\<rparr>)"
proof (induction n)
  case 0
  then show ?case by simp
next
  case (Suc n)
  show ?case
  proof (cases "p = Suc n")
    case True
    from Suc.prems(2) True have ne: "lists r (lane (Suc n)) \<noteq> []" by simp
    show ?thesis unfolding True
      by (simp only: popFrom.simps rPop_nonempty [OF ne] prod.case option.case)
  next
    case False
    with Suc.prems have p: "p \<in> {1..n}" by auto
    from False Suc.prems p have top: "lists r (lane (Suc n)) = []" by auto
    from Suc.prems have "\<forall>q\<in>{p<..n}. lists r (lane q) = []" by auto
    with Suc.IH p Suc.prems(2) top show ?thesis by (simp add: rPop_empty)
  qed
qed

lemma popFrom_None_empty:
  "fst (popFrom n r) = None \<Longrightarrow> p \<in> {1..n} \<Longrightarrow> lists r (lane p) = []"
proof (induction n)
  case 0
  then show ?case by simp
next
  case (Suc n)
  show ?case
  proof (cases "lists r (lane (Suc n)) = []")
    case True
    with Suc.prems have "fst (popFrom n r) = None" by (simp add: rPop_empty)
    with Suc.IH Suc.prems True show ?thesis by (cases "p = Suc n") auto
  next
    case False
    with Suc.prems show ?thesis by (simp add: rPop_nonempty)
  qed
qed

lemma lists_lPush_all: "lists (lPush_all r k vs) k = rev vs @ lists r k"
  by (induction vs arbitrary: r) (simp_all add: lPush_def)

lemma last_rev_butlast: "xs \<noteq> [] \<Longrightarrow> last xs # rev (butlast xs) = rev xs"
  by (induction xs rule: rev_induct) simp_all

lemma rPop_n_drain:
  "rPop_n (length (lists r k)) r k = map Some (rev (lists r k))"
proof (induction "length (lists r k)" arbitrary: r)
  case 0
  then show ?case by simp
next
  case (Suc n)
  then have ne: "lists r k \<noteq> []" by auto
  let ?r' = "r\<lparr>lists := (lists r)(k := butlast (lists r k))\<rparr>"
  have len: "n = length (lists ?r' k)" using Suc.hyps(2) by simp
  have "rPop_n (Suc n) r k = Some (last (lists r k)) # rPop_n n ?r' k"
    by (simp add: rPop_nonempty [OF ne])
  also have "rPop_n n ?r' k = map Some (rev (lists ?r' k))"
    using Suc.hyps(1) [OF len] len by simp
  also have "Some (last (lists r k)) # map Some (rev (lists ?r' k)) = map Some (rev (lists r k))"
    using last_rev_butlast [OF ne] by (simp flip: list.map(2))
  finally show ?case using Suc.hyps(2) by simp
qed

lemma lists_busyRedis:
  "lists busyRedis (lane 9) = [11, 8]" "lists busyRedis (lane 3) = [7]"
  "p \<noteq> 9 \<Longrightarrow> p \<noteq> 3 \<Longrightarrow> lists busyRedis (lane p) = []"
  by (simp_all add: busyRedis_def emptyRedis_def lPush_def lane_def)

text \<open>
  Claim C6. One dequeue of the dispatch loop: when lanes 1 to 10 are all empty it
  returns nothing and leaves Redis unchanged, and it returns nothing only then;
  otherwise it removes the oldest identifier (the tail) of the highest-numbered
  non-empty lane and touches no other lane. Within one lane the order is first in,
  first out: after the identifiers \<open>vs\<close> are enqueued in order on a lane, dequeueing
  it to the end returns what the lane held, oldest first, and then \<open>vs\<close> in the
  order of their enqueueing.
\<close>

theorem dispatch_dequeue:
  "((\<forall>p\<in>{1..10}. lists r (lane p) = []) \<longrightarrow> popHighest r = (None, r))
   \<and> (fst (popHighest r) = None \<longrightarrow> (\<forall>p\<in>{1..10}. lists r (lane p) = []))
   \<and> (p \<in> {1..10} \<and> lists r (lane p) \<noteq> [] \<and> (\<forall>q\<in>{p<..10}. lists r (lane q) = []) \<longrightarrow>
        popHighest r = (Some (last (lists r (lane p)), p),
                        r\<lparr>lists := (lists r)(lane p := butlast (lists r (lane p)))\<rparr>))
   \<and> rPop_n (length (lists r k) + length vs) (lPush_all r k vs) k
        = map Some (rev (lists r k) @ vs)"
proof -
  have a: "(\<forall>p\<in>{1..10}. lists r (lane p) = []) \<longrightarrow> popHighest r = (None, r)"
    unfolding popHighest_def using popFrom_all_empty [of 10 r] by blast
  have b: "fst (popHighest r) = None \<longrightarrow> (\<forall>p\<in>{1..10}. lists r (lane p) = [])"
    unfolding popHighest_def using popFrom_None_empty [of 10 r] by blast
  have c: "p \<in> {1..10} \<and> lists r (lane p) \<noteq> [] \<and> (\<forall>q\<in>{p<..10}. lists r (lane q) = []) \<longrightarrow>
        popHighest r = (Some (last (lists r (lane p)), p),
                        r\<lparr>lists := (lists r)(lane p := butlast (lists r (lane p)))\<rparr>)"
    unfolding popHighest_def using popFrom_hit [of p 10 r] by blast
  have "length (lists r k) + length vs = length (lists (lPush_all r k vs) k)"
    by (simp add: lists_lPush_all)
  then have d: "rPop_n (length (lists r k) + length vs) (lPush_all r k vs) k
        = map Some (rev (lists r k) @ vs)"
    using rPop_n_drain [of "lPush_all r k vs" k] by (simp add: lists_lPush_all add.commute)
  from a b c d show ?thesis by blast
qed

theorem dispatch_dequeue_witness:
  "popHighest emptyRedis = (None, emptyRedis)
   \<and> (9::nat) \<in> {1..10} \<and> lists busyRedis (lane 9) \<noteq> []
   \<and> fst (popHighest busyRedis) = Some (8, 9)
   \<and> lists (snd (popHighest busyRedis)) (lane 9) = [11]
   \<and> rPop_n 4 (lPush_all busyRedis (lane 9) [20, 21]) (lane 9) = [Some 8, Some 11, Some 20, Some 21]"
proof -
  have e: "\<forall>p\<in>{1..10}. lists emptyRedis (lane p) = []"
    by (simp add: emptyRedis_def)
  have h: "(9::nat) \<in> {1..10} \<and> lists busyRedis (lane 9) \<noteq> []
           \<and> (\<forall>q\<in>{9<..10}. lists busyRedis (lane q) = [])"
    by (auto simp: lists_busyRedis)
  from e dispatch_dequeue [of emptyRedis 9 "lane 9" "[]"]
  have 1: "popHighest emptyRedis = (None, emptyRedis)" by blast
  from h dispatch_dequeue [of busyRedis 9 "lane 9" "[20, 21]"]
  have 2: "popHighest busyRedis = (Some (last (lists busyRedis (lane 9)), 9),
             busyRedis\<lparr>lists := (lists busyRedis)(lane 9 := butlast (lists busyRedis (lane 9)))\<rparr>)"
    and 3: "rPop_n (length (lists busyRedis (lane 9)) + length [20, 21::nat])
              (lPush_all busyRedis (lane 9) [20, 21]) (lane 9)
            = map Some (rev (lists busyRedis (lane 9)) @ [20, 21])"
    by blast+
  have len: "length (lists busyRedis (lane 9)) + length [20, 21::nat] = 4"
    by (simp add: lists_busyRedis)
  from 3 have 4: "rPop_n 4 (lPush_all busyRedis (lane 9) [20, 21]) (lane 9)
            = map Some (rev (lists busyRedis (lane 9)) @ [20, 21])"
    unfolding len .
  from 1 2 4 h show ?thesis by (simp add: lists_busyRedis)
qed

section \<open>Properties of the preemption oracle\<close>

lemma highestWaitingFrom_pos:
  "highestWaitingFrom n r = h \<Longrightarrow> 0 < h \<Longrightarrow>
   h \<in> {1..n} \<and> lists r (lane h) \<noteq> [] \<and> (\<forall>q\<in>{h<..n}. lists r (lane q) = [])"
proof (induction n)
  case 0
  then show ?case by simp
next
  case (Suc n)
  show ?case
  proof (cases "lists r (lane (Suc n)) = []")
    case True
    with Suc.prems have "highestWaitingFrom n r = h" by (simp add: lLen_def)
    from Suc.IH [OF this Suc.prems(2)] True show ?thesis
      by (auto simp: greaterThanAtMost_def atLeastAtMost_def le_Suc_eq)
  next
    case False
    with Suc.prems have "h = Suc n" by (simp add: lLen_def)
    with False show ?thesis by simp
  qed
qed

lemma highestWaitingFrom_hit:
  "h \<in> {1..n} \<Longrightarrow> lists r (lane h) \<noteq> [] \<Longrightarrow> (\<forall>q\<in>{h<..n}. lists r (lane q) = []) \<Longrightarrow>
   highestWaitingFrom n r = h"
proof (induction n)
  case 0
  then show ?case by simp
next
  case (Suc n)
  show ?case
  proof (cases "h = Suc n")
    case True
    with Suc.prems show ?thesis by (simp add: lLen_def)
  next
    case False
    with Suc.prems have h: "h \<in> {1..n}" by auto
    from False Suc.prems h have top: "lists r (lane (Suc n)) = []" by auto
    from Suc.prems have "\<forall>q\<in>{h<..n}. lists r (lane q) = []" by auto
    with Suc.IH h Suc.prems(2) top show ?thesis by (simp add: lLen_def)
  qed
qed

lemma highestWaitingFrom_emptyRedis: "highestWaitingFrom n emptyRedis = 0"
  by (induction n) (simp_all add: lLen_def emptyRedis_def)

text \<open>
  Claim C7. For a running job whose stored priority \<open>p\<close> is at least 1 and whose
  creation time is not in the future, the effective priority is
  \<open>min (p + ageSeconds) 10\<close> with \<open>ageSeconds\<close> the whole seconds since creation, and
  checkPreemption answers true exactly when some lane \<open>h\<close> of 1 to 10 is non-empty,
  every lane above \<open>h\<close> is empty, and \<open>h\<close> is strictly greater than that effective
  priority.
\<close>

theorem checkPreemption_iff:
  assumes "priority j = Some p" and "1 \<le> p" and "createdAt j \<le> now"
  shows "getEffectivePriority now j = min (p + (now - createdAt j) div 1000) 10
     \<and> (checkPreemption now r j \<longleftrightarrow>
        (\<exists>h\<in>{1..10}. lists r (lane h) \<noteq> [] \<and> (\<forall>q\<in>{h<..10}. lists r (lane q) = [])
              \<and> int h > min (p + (now - createdAt j) div 1000) 10))"
proof -
  let ?eff = "min (p + (now - createdAt j) div 1000) 10"
  have eff: "getEffectivePriority now j = ?eff"
    using assms by (simp add: getEffectivePriority_def basePriority_def getJobAge_def)
  have pos: "0 < ?eff" using assms by simp
  have cp: "checkPreemption now r j \<longleftrightarrow> int (highestWaitingFrom 10 r) > ?eff"
    by (simp add: checkPreemption_def eff)
  have "(int (highestWaitingFrom 10 r) > ?eff) \<longleftrightarrow>
        (\<exists>h\<in>{1..10}. lists r (lane h) \<noteq> [] \<and> (\<forall>q\<in>{h<..10}. lists r (lane q) = [])
              \<and> int h > ?eff)"
  proof
    assume gt: "int (highestWaitingFrom 10 r) > ?eff"
    with pos have "0 < highestWaitingFrom 10 r" by linarith
    from highestWaitingFrom_pos [OF refl this] gt show
      "\<exists>h\<in>{1..10}. lists r (lane h) \<noteq> [] \<and> (\<forall>q\<in>{h<..10}. lists r (lane q) = []) \<and> int h > ?eff"
      by blast
  next
    assume "\<exists>h\<in>{1..10}. lists r (lane h) \<noteq> [] \<and> (\<forall>q\<in>{h<..10}. lists r (lane q) = []) \<and> int h > ?eff"
    then obtain h where h: "h \<in> {1..10}" "lists r (lane h) \<noteq> []"
      "\<forall>q\<in>{h<..10}. lists r (lane q) = []" "int h > ?eff" by blast
    from highestWaitingFrom_hit [OF h(1) h(2) h(3)] h(4)
    show "int (highestWaitingFrom 10 r) > ?eff" by simp
  qed
  with cp eff show ?thesis by simp
qed

theorem checkPreemption_iff_witness:
  "priority jobA = Some 3 \<and> (1::int) \<le> 3 \<and> createdAt jobA \<le> 1500
   \<and> getEffectivePriority 1500 jobA = 4
   \<and> checkPreemption 1500 busyRedis jobA
   \<and> \<not> checkPreemption 1500 emptyRedis jobA"
proof -
  have a: "priority jobA = Some 3" and b: "(1::int) \<le> 3" and c: "createdAt jobA \<le> 1500"
    by (simp_all add: jobA_def)
  have h: "\<exists>h\<in>{1..10}. lists busyRedis (lane h) \<noteq> []
             \<and> (\<forall>q\<in>{h<..10}. lists busyRedis (lane q) = [])
             \<and> int h > min (3 + (1500 - createdAt jobA) div 1000) 10"
    by (rule bexI [of _ 9]) (auto simp: lists_busyRedis jobA_def)
  have n: "\<not> (\<exists>h\<in>{1..10}. lists emptyRedis (lane h) \<noteq> []
             \<and> (\<forall>q\<in>{h<..10}. lists emptyRedis (lane q) = [])
             \<and> int h > min (3 + (1500 - createdAt jobA) div 1000) 10)"
    by (simp add: emptyRedis_def)
  from checkPreemption_iff [OF a b c, of busyRedis] h
  have 1: "getEffectivePriority 1500 jobA = min (3 + (1500 - createdAt jobA) div 1000) 10"
    and 2: "checkPreemption 1500 busyRedis jobA" by blast+
  from checkPreemption_iff [OF a b c, of emptyRedis] n
  have 3: "\<not> checkPreemption 1500 emptyRedis jobA" by blast
  from 1 have "getEffectivePriority 1500 jobA = 4" by (simp add: jobA_def)
  with a b c 2 3 show ?thesis by simp
qed


section \<open>Properties of the store primitives\<close>

lemma findById_jid: "findById i js = Some j \<Longrightarrow> jid j = i"
  by (induction js) (auto split: if_splits)

lemma findById_None: "findById i js = None \<longleftrightarrow> i \<notin> set (map jid js)"
  by (induction js) auto

lemma findById_save_job:
  "jid j \<in> set (map jid js) \<Longrightarrow> findById (jid j) (save_job j js) = Some j"
  by (induction js) auto

lemma map_jid_save_job: "map jid (save_job j js) = map jid js"
  by (induction js) auto

lemma findOnePCB_jobId: "findOnePCB i ps = Some p \<Longrightarrow> jobId p = i"
  by (induction ps) (auto split: if_splits)

lemma findOnePCB_mem: "findOnePCB i ps = Some p \<Longrightarrow> p \<in> set ps"
  by (induction ps) (auto split: if_splits)

lemma map_pcb_id_save_pcb: "map pcb_id (save_pcb p ps) = map pcb_id ps"
  by (induction ps) auto

text \<open>
  Saving a changed copy of the first PCB of a job, with the job reference kept, makes
  it the first PCB of the job.
\<close>

lemma findOnePCB_save_pcb:
  "findOnePCB i ps = Some p \<Longrightarrow> pcb_id q = pcb_id p \<Longrightarrow> jobId q = i \<Longrightarrow>
   findOnePCB i (save_pcb q ps) = Some q"
  by (induction ps) (auto split: if_splits)

lemma saveJob_Inr:
  "jid j \<in> set (map jid (jobs d)) \<Longrightarrow> saveJob j d = Inr (d\<lparr>jobs := save_job j (jobs d)\<rparr>)"
  by (simp add: saveJob_def)

lemma savePCB_Inr:
  "pcb_id p \<in> set (map pcb_id (pcbs d)) \<Longrightarrow> savePCB p d = Inr (d\<lparr>pcbs := save_pcb p (pcbs d)\<rparr>)"
  by (simp add: savePCB_def)

lemma le_foldr_max: "x \<in> set xs \<Longrightarrow> x \<le> foldr max xs (0::nat)"
  by (induction xs) auto

lemma newObjectId_fresh: "newObjectId ps \<notin> set (map pcb_id ps)"
proof
  assume "newObjectId ps \<in> set (map pcb_id ps)"
  from le_foldr_max [OF this] show False by (simp add: newObjectId_def)
qed

lemma applyDefaults_sel:
  "jid (applyDefaults j) = jid j" "status (applyDefaults j) = status j"
  "createdAt (applyDefaults j) = createdAt j" "jtype (applyDefaults j) = jtype j"
  "maxRetries (applyDefaults j) = maxRetries j"
  "executionTimeSecs (applyDefaults j) = executionTimeSecs j"
  "job_payload (applyDefaults j) = job_payload j"
  by (simp_all add: applyDefaults_def)

lemma applyDefaults_id:
  "retryCount j = Some n \<Longrightarrow> priority j = Some p \<Longrightarrow> applyDefaults j = j"
  by (simp add: applyDefaults_def)

lemma applyDefaults_idem: "applyDefaults (applyDefaults j) = applyDefaults j"
  by (simp add: applyDefaults_def)

section \<open>The default base priority\<close>








section \<open>Properties of the dispatch loop and the execution controller\<close>

lemma execution_loop_quiet:
  "(\<And>k. \<not> checkPreemption (fst (pr k)) (snd (pr k)) j) \<Longrightarrow>
   execution_loop pr j k remainingMs executedSoFar = None"
proof (induction pr j k remainingMs executedSoFar rule: execution_loop.induct)
  case (1 pr j k remainingMs executedSoFar)
  show ?case
    by (subst execution_loop.simps) (simp add: 1)
qed

lemma checkPreemption_emptyRedis:
  "checkPreemption now emptyRedis j \<longleftrightarrow> getEffectivePriority now j < 0"
  by (simp add: checkPreemption_def highestWaitingFrom_emptyRedis)

lemma highestWaitingFrom_busyRedis: "highestWaitingFrom 10 busyRedis = 9"
proof -
  have "(9::nat) \<in> {1..10}" "lists busyRedis (lane 9) \<noteq> []"
       "\<forall>q\<in>{9<..10}. lists busyRedis (lane q) = []"
    by (auto simp: lists_busyRedis)
  then show ?thesis by (rule highestWaitingFrom_hit)
qed

lemma jobA_sel:
  "jid jobA = 21" "jtype jobA = ''DELAY''" "executionTimeSecs jobA = 1"
  "priority jobA = Some 3" "createdAt jobA = 0" "retryCount jobA = Some 0"
  "status jobA = PENDING" "maxRetries jobA = 3"
  by (simp_all add: jobA_def)

lemma applyDefaults_jobA: "applyDefaults (jobA\<lparr>status := s\<rparr>) = jobA\<lparr>status := s\<rparr>"
  "applyDefaults jobA = jobA"
  by (simp_all add: applyDefaults_def jobA_sel)

lemma busy_preempts_jobA:
  "priority j = Some 3 \<Longrightarrow> createdAt j = 0 \<Longrightarrow> checkPreemption (fst (busyProbes k)) (snd (busyProbes k)) j"
  by (simp add: busyProbes_def checkPreemption_def highestWaitingFrom_busyRedis
      getEffectivePriority_def basePriority_def getJobAge_def)

lemma popHighest_single:
  assumes "p \<in> {1..10}"
  shows "popHighest (lPush emptyRedis (lane p) i) = (Some (i, p), emptyRedis)"
proof -
  define r where "r = lPush emptyRedis (lane p) i"
  have l: "lists r (lane p) = [i]" "\<And>q. q \<noteq> p \<Longrightarrow> lists r (lane q) = []"
    by (simp_all add: r_def lPush_def emptyRedis_def lane_def)
  then have "lists r (lane p) \<noteq> []" "\<forall>q\<in>{p<..10}. lists r (lane q) = []"
    by auto
  from popFrom_hit [OF assms this] have "popFrom 10 r = (Some (i, p),
      r\<lparr>lists := (lists r)(lane p := [])\<rparr>)" by (simp add: l)
  moreover have "r\<lparr>lists := (lists r)(lane p := [])\<rparr> = emptyRedis"
    by (simp add: r_def lPush_def emptyRedis_def fun_eq_iff)
  ultimately show ?thesis by (simp add: popHighest_def r_def)
qed

lemma popHighest_redis1: "popHighest redis1 = (Some (21, 3), emptyRedis)"
  unfolding redis1_def by (rule popHighest_single) simp

lemma first_run:
  "processJobs_iteration busyProbes 0 200 (db1, redis1) =
     (\<lparr>jobs = [jobA\<lparr>status := SUCCESS\<rparr>],
       pcbs = [(newExecutionPCB 0 (jobA\<lparr>status := RUNNING\<rparr>))
                 \<lparr>pcb_id := newObjectId [], pcb_status := PCB_SUSPENDED,
                  executionTimeDoneSecs := Some (1 / 10), suspendedAt := Some 100\<rparr>]\<rparr>, emptyRedis)"
proof -
  have loop: "execution_loop busyProbes (jobA\<lparr>status := RUNNING\<rparr>) 0 1000 0 = Some (0, 100)"
    by (subst execution_loop.simps) (simp add: busy_preempts_jobA jobA_sel)
  have new: "executionTimeDoneSecs (newExecutionPCB 0 (jobA\<lparr>status := RUNNING\<rparr>)) = Some 0"
    "jobId (newExecutionPCB 0 (jobA\<lparr>status := RUNNING\<rparr>)) = 21"
    by (simp_all add: newExecutionPCB_def jobA_sel)
  have ex: "executeJob busyProbes 0 (jobA\<lparr>status := RUNNING\<rparr>) \<lparr>jobs = [jobA\<lparr>status := RUNNING\<rparr>], pcbs = []\<rparr>
      = (Inr (), jobA\<lparr>status := SUSPENDED\<rparr>,
         \<lparr>jobs = [jobA\<lparr>status := SUSPENDED\<rparr>],
          pcbs = [(newExecutionPCB 0 (jobA\<lparr>status := RUNNING\<rparr>))
                 \<lparr>pcb_id := newObjectId [], pcb_status := PCB_SUSPENDED,
                  executionTimeDoneSecs := Some (1 / 10), suspendedAt := Some 100\<rparr>]\<rparr>)"
    by (simp add: executeJob_def executionOnlyExecutor_def executorStart_def executorLoop_def
        executorFinish_def createPCB_def savePCB_def saveJob_def
        jobA_sel new loop busyProbes_def Let_def)
  show ?thesis
    by (simp add: processJobs_iteration_def popHighest_redis1 db1_def Job_findById_def
        applyDefaults_jobA saveJob_def jobA_sel ex Let_def)
qed



text \<open>
  Claim C1, on the code. The dispatch loop picks \<open>jobA\<close> (priority 3) from lane 3, and
  the first preemption check sees lane 9 occupied. The execution controller saves the
  checkpoint (a tenth of a second done) and marks the PCB SUSPENDED, but it returns
  instead of throwing, so the dispatch loop saves the job as SUCCESS. No retry
  bookkeeping happens.
\<close>

theorem preempted_job_marked_success:
  "map status (jobs (fst (processJobs_iteration busyProbes 0 200 (db1, redis1)))) = [SUCCESS]
   \<and> map pcb_status (pcbs (fst (processJobs_iteration busyProbes 0 200 (db1, redis1)))) = [PCB_SUSPENDED]
   \<and> map executionTimeDoneSecs (pcbs (fst (processJobs_iteration busyProbes 0 200 (db1, redis1)))) = [Some (1 / 10)]
   \<and> map retryCount (jobs (fst (processJobs_iteration busyProbes 0 200 (db1, redis1)))) = [Some 0]
   \<and> delayedQueue (snd (processJobs_iteration busyProbes 0 200 (db1, redis1))) 21 = None"
  by (simp add: first_run jobA_sel emptyRedis_def)

lemma quiet_never_preempts:
  "priority j = Some p \<Longrightarrow> 0 \<le> p \<Longrightarrow> createdAt j \<le> 3000 \<Longrightarrow>
   \<not> checkPreemption (fst (quietProbes k)) (snd (quietProbes k)) j"
proof -
  assume a: "priority j = Some p" "0 \<le> p" "createdAt j \<le> 3000"
  then have "0 \<le> (3000 - createdAt j) div 1000" by simp
  with a show ?thesis
    by (auto simp: quietProbes_def checkPreemption_emptyRedis getEffectivePriority_def
        basePriority_def getJobAge_def)
qed

lemma afterPreemption_eq:
  "afterPreemption =
     (\<lparr>jobs = [jobA\<lparr>status := SUCCESS\<rparr>],
       pcbs = [(newExecutionPCB 0 (jobA\<lparr>status := RUNNING\<rparr>))
                 \<lparr>pcb_id := newObjectId [], pcb_status := PCB_SUSPENDED,
                  executionTimeDoneSecs := Some (1 / 10), suspendedAt := Some 100\<rparr>]\<rparr>, emptyRedis)"
  by (simp add: afterPreemption_def first_run)

lemma afterScan_eq:
  "afterScan =
     (\<lparr>jobs = [jobA\<lparr>status := SUCCESS, priority := Some 5\<rparr>],
       pcbs = [(newExecutionPCB 0 (jobA\<lparr>status := RUNNING\<rparr>))
                 \<lparr>pcb_id := newObjectId [], pcb_status := PCB_READY,
                  executionTimeDoneSecs := Some (1 / 10), suspendedAt := Some 100\<rparr>]\<rparr>,
      lPush emptyRedis (lane 5) 21)"
proof -
  have new: "jobId (newExecutionPCB 0 (jobA\<lparr>status := RUNNING\<rparr>)) = 21"
    by (simp add: newExecutionPCB_def jobA_sel)
  have eff: "getEffectivePriority 2000 (jobA\<lparr>status := SUCCESS\<rparr>) = 5"
    by (simp add: getEffectivePriority_def basePriority_def getJobAge_def jobA_sel)
  show ?thesis
    by (simp add: afterScan_def afterPreemption_eq processSuspendedJobs_iteration_def
        findSuspended_def Job_findById_def applyDefaults_jobA new eff jobA_sel Let_def
        saveJob_def savePCB_def lane_def)
qed

lemma afterResume_eq:
  "afterResume =
     (\<lparr>jobs = [jobA\<lparr>status := SUCCESS, priority := Some 5\<rparr>],
       pcbs = [(newExecutionPCB 0 (jobA\<lparr>status := RUNNING\<rparr>))
                 \<lparr>pcb_id := newObjectId [], pcb_status := PCB_COMPLETED,
                  executionTimeDoneSecs := Some 1, suspendedAt := Some 100\<rparr>]\<rparr>, emptyRedis)"
proof -
  have new: "jobId (newExecutionPCB 0 (jobA\<lparr>status := RUNNING\<rparr>)) = 21"
    by (simp add: newExecutionPCB_def jobA_sel)
  have loop: "\<And>j x. priority j = Some 5 \<Longrightarrow> createdAt j = 0 \<Longrightarrow>
                 execution_loop quietProbes j 0 x 0 = None"
    by (rule execution_loop_quiet) (simp add: quiet_never_preempts [of _ 5])
  have pop: "popHighest (lPush emptyRedis (lane 5) 21) = (Some (21, 5), emptyRedis)"
    by (rule popHighest_single) simp
  have ad: "applyDefaults (jobA\<lparr>status := SUCCESS, priority := Some 5\<rparr>)
              = jobA\<lparr>status := SUCCESS, priority := Some 5\<rparr>"
    by (simp add: applyDefaults_def jobA_sel)
  show ?thesis
    by (simp add: afterResume_def afterScan_eq processJobs_iteration_def pop
        Job_findById_def ad executeJob_def executionOnlyExecutor_def executorStart_def
        executorLoop_def executorFinish_def new loop jobA_sel Let_def saveJob_def savePCB_def)
qed

text \<open>
  Claim C2, on the code. After the preemption of \<open>jobA\<close> its PCB is SUSPENDED with
  resumeCount 0. The resumption scanner re-queues the job (on lane 5, its aged
  priority) and sets the PCB to READY. The next run therefore does not take the
  executor's branch for a SUSPENDED PCB: it completes the job with resumeCount still 0.
\<close>

theorem resume_cycle_keeps_resumeCount:
  "map pcb_status (pcbs (fst afterPreemption)) = [PCB_SUSPENDED]
   \<and> map resumeCount (pcbs (fst afterPreemption)) = [0]
   \<and> map pcb_status (pcbs (fst afterScan)) = [PCB_READY]
   \<and> lists (snd afterScan) (lane 5) = [21]
   \<and> map pcb_status (pcbs (fst afterResume)) = [PCB_COMPLETED]
   \<and> map executionTimeDoneSecs (pcbs (fst afterResume)) = [Some 1]
   \<and> map resumeCount (pcbs (fst afterResume)) = [0]"
  by (simp add: afterPreemption_eq afterScan_eq afterResume_eq newExecutionPCB_def lPush_def
      emptyRedis_def)

lemma executeJob_hookJob:
  "executeJob quietProbes 3000 (hookJob\<lparr>status := s\<rparr>) \<lparr>jobs = js, pcbs = []\<rparr>
     = (Inr (), hookJob\<lparr>status := s\<rparr>,
        \<lparr>jobs = js,
          pcbs = [(newExecutionPCB 3000 (hookJob\<lparr>status := s\<rparr>))
                    \<lparr>pcb_id := newObjectId [], pcb_status := PCB_COMPLETED,
                     executionTimeDoneSecs := Some 1\<rparr>]\<rparr>)"
proof -
  have loop: "\<And>x. execution_loop quietProbes (hookJob\<lparr>status := s\<rparr>) 0 x 0 = None"
    by (rule execution_loop_quiet) (simp add: quiet_never_preempts [of _ 3] hookJob_def jobA_sel)
  have new: "executionTimeDoneSecs (newExecutionPCB 3000 (hookJob\<lparr>status := s\<rparr>)) = Some 0"
    "jobId (newExecutionPCB 3000 (hookJob\<lparr>status := s\<rparr>)) = 21"
    by (simp_all add: newExecutionPCB_def hookJob_def jobA_sel)
  have sel: "jtype hookJob = ''WEBHOOK''" "jid hookJob = 21" "executionTimeSecs hookJob = 1"
    by (simp_all add: hookJob_def jobA_sel)
  show ?thesis
    by (simp add: executeJob_def sel executionOnlyExecutor_def executorStart_def executorLoop_def
        executorFinish_def createPCB_def savePCB_def new loop Let_def)
qed

text \<open>
  Claim C8, on the code. For the WEBHOOK job \<open>hookJob\<close>, whose payload has no url, the
  handler reports \<^verbatim>\<open>Missing webhook URL\<close>. executeJob never calls the handler: in a run
  without preemption it resolves normally and the dispatch loop saves the job as
  SUCCESS, with no retry counted.
\<close>

theorem webhook_without_url_succeeds:
  "payload_url (job_payload hookJob) = None
   \<and> webhookExecutor hookJob = Inl ''Missing webhook URL''
   \<and> fst (executeJob quietProbes 3000 hookJob hookDb) = Inr ()
   \<and> map status (jobs (fst (processJobs_iteration quietProbes 3000 5000 (hookDb, redis1))))
        = [SUCCESS]"
proof -
  have u: "payload_url (job_payload hookJob) = None"
    by (simp add: hookJob_def jobA_def emptyPayload_def)
  then have w: "webhookExecutor hookJob = Inl ''Missing webhook URL''"
    by (simp add: webhookExecutor_def)
  have e: "fst (executeJob quietProbes 3000 hookJob hookDb) = Inr ()"
    using executeJob_hookJob [of "status hookJob" "[hookJob]"] by (simp add: hookDb_def)
  have ad: "applyDefaults hookJob = hookJob"
    by (simp add: applyDefaults_def hookJob_def jobA_sel)
  have i: "jid hookJob = 21" by (simp add: hookJob_def jobA_sel)
  have "map status (jobs (fst (processJobs_iteration quietProbes 3000 5000 (hookDb, redis1))))
        = [SUCCESS]"
    by (simp add: processJobs_iteration_def popHighest_redis1 hookDb_def Job_findById_def ad i
        saveJob_def Let_def executeJob_hookJob)
  with u w e show ?thesis by simp
qed



text \<open>
  Claim C9, on the code. shutdown saves the active job as PENDING (its document being
  in the store), but pushes its identifier on the bare key \<^verbatim>\<open>jobQueue\<close>: no priority
  lane \<^verbatim>\<open>jobQueue:<priority>\<close> changes, whatever the job's priority.
\<close>

theorem shutdown_pushes_bare_key:
  "(jid j \<in> set (map jid (jobs d)) \<longrightarrow>
      findById (jid j) (jobs (fst (shutdown (Some j) (d, r)))) = Some (j\<lparr>status := PENDING\<rparr>)
      \<and> lists (snd (shutdown (Some j) (d, r))) JobQueue = jid j # lists r JobQueue)
   \<and> lists (snd (shutdown (Some j) (d, r))) (JobQueueLane q) = lists r (JobQueueLane q)"
  using findById_save_job [of "j\<lparr>status := PENDING\<rparr>" "jobs d"]
  by (simp add: shutdown_def saveJob_def lPush_def Let_def)

theorem shutdown_pushes_bare_key_witness:
  "jid jobR \<in> set (map jid (jobs \<lparr>jobs = [jobA, jobR], pcbs = []\<rparr>))
   \<and> map status (jobs (fst (shutdown (Some jobR) (\<lparr>jobs = [jobA, jobR], pcbs = []\<rparr>, emptyRedis))))
        = [PENDING, PENDING]
   \<and> findById 22 (jobs (fst (shutdown (Some jobR) (\<lparr>jobs = [jobA, jobR], pcbs = []\<rparr>, emptyRedis))))
        = Some (jobR\<lparr>status := PENDING\<rparr>)
   \<and> lists (snd (shutdown (Some jobR) (\<lparr>jobs = [jobA, jobR], pcbs = []\<rparr>, emptyRedis))) JobQueue = [22]
   \<and> lists (snd (shutdown (Some jobR) (\<lparr>jobs = [jobA, jobR], pcbs = []\<rparr>, emptyRedis))) (lane 3) = []"
proof -
  have i: "jid jobR = 22" "jid jobA = 21" "status jobA = PENDING"
    by (simp_all add: jobR_def jobA_def)
  have m: "jid jobR \<in> set (map jid (jobs \<lparr>jobs = [jobA, jobR], pcbs = []\<rparr>))" by simp
  have s: "map status (jobs (fst (shutdown (Some jobR) (\<lparr>jobs = [jobA, jobR], pcbs = []\<rparr>, emptyRedis))))
        = [PENDING, PENDING]"
    by (simp add: shutdown_def saveJob_def i)
  from shutdown_pushes_bare_key [of jobR "\<lparr>jobs = [jobA, jobR], pcbs = []\<rparr>" emptyRedis "Some 3"] m s
  show ?thesis by (simp add: i emptyRedis_def lane_def)
qed

section \<open>Retry accounting\<close>

text \<open>
  The catch block of the dispatch loop, for an error other than \<^verbatim>\<open>PREEMPTED\<close> and a job
  whose document is in the store: the job is saved with retryCount incremented (an
  undefined count reads as 0). If the new count \<open>rc\<close> is at most maxRetries, the job is
  saved PENDING and its identifier is added to the delayed set with score
  \<open>now + 2 ^ rc * 1000\<close> milliseconds; otherwise it is saved FAILED and the delayed set
  is unchanged. The ready lanes and the PCBs are untouched.
\<close>

lemma retry_accounting:
  assumes "message \<noteq> ''PREEMPTED''" and "jid j \<in> set (map jid (jobs d))"
    and "rc = (case retryCount j of None \<Rightarrow> 0 | Some n \<Rightarrow> n) + 1"
    and "j' = j\<lparr>retryCount := Some rc, status := (if rc \<le> maxRetries j then PENDING else FAILED)\<rparr>"
  shows "processJobs_catch now message popped j (d, r)
           = (Inr (), j', d\<lparr>jobs := save_job j' (jobs d)\<rparr>,
              if rc \<le> maxRetries j then zAdd r (now + 2 ^ rc * 1000) popped else r)"
  using assms by (simp add: processJobs_catch_def Let_def saveJob_def)

text \<open>
  An error thrown by executeJob takes the iteration into the catch block: for a job
  of a type that executeJob does not know, the iteration ends with the job stored as
  the retry accounting leaves it.
\<close>

lemma failed_run_retry_accounting:
  assumes pop: "popHighest r = (Some (i, p), r')"
    and found: "findById i (jobs d) = Some j0"
    and odd: "jtype j0 \<noteq> ''DELAY''" "jtype j0 \<noteq> ''EMAIL''" "jtype j0 \<noteq> ''WEBHOOK''"
    and rc: "rc = (case retryCount j0 of None \<Rightarrow> 0 | Some n \<Rightarrow> n) + 1"
  shows "processJobs_iteration pr t0 t1 (d, r)
           = snd (snd (processJobs_catch t1 (''Unknown job type: '' @ jtype j0) i
                         ((applyDefaults j0)\<lparr>status := RUNNING\<rparr>)
                         (d\<lparr>jobs := save_job ((applyDefaults j0)\<lparr>status := RUNNING\<rparr>) (jobs d)\<rparr>, r')))"
    and "findById i (jobs (fst (processJobs_iteration pr t0 t1 (d, r))))
           = Some ((applyDefaults j0)\<lparr>retryCount := Some rc,
                     status := (if rc \<le> maxRetries j0 then PENDING else FAILED)\<rparr>)"
    and "delayedQueue (snd (processJobs_iteration pr t0 t1 (d, r)))
           = (if rc \<le> maxRetries j0 then (delayedQueue r')(i \<mapsto> t1 + 2 ^ rc * 1000)
              else delayedQueue r')"
    and "lists (snd (processJobs_iteration pr t0 t1 (d, r))) = lists r'"
proof -
  let ?j1 = "(applyDefaults j0)\<lparr>status := RUNNING\<rparr>"
  let ?d1 = "d\<lparr>jobs := save_job ?j1 (jobs d)\<rparr>"
  let ?j' = "?j1\<lparr>retryCount := Some rc, status := (if rc \<le> maxRetries ?j1 then PENDING else FAILED)\<rparr>"
  have i: "jid j0 = i" using found by (rule findById_jid)
  have mem: "jid ?j1 \<in> set (map jid (jobs d))"
    using found findById_None [of i "jobs d"] by (simp add: applyDefaults_sel i)
  have mem1: "jid ?j1 \<in> set (map jid (jobs ?d1))"
    using mem by (simp add: map_jid_save_job)
  have it: "processJobs_iteration pr t0 t1 (d, r)
           = snd (snd (processJobs_catch t1 (''Unknown job type: '' @ jtype j0) i ?j1 (?d1, r')))"
    using odd
    by (simp add: processJobs_iteration_def pop Job_findById_def found Let_def
        saveJob_Inr [OF mem] executeJob_def applyDefaults_sel)
  have m: "''Unknown job type: '' @ jtype j0 \<noteq> ''PREEMPTED''" by simp
  have rc1: "rc = (case retryCount ?j1 of None \<Rightarrow> 0 | Some n \<Rightarrow> n) + 1"
    using rc by (simp add: applyDefaults_def split: option.splits)
  note c = retry_accounting [OF m mem1 rc1 refl, of t1 i r']
  have f: "findById i (save_job ?j' (save_job ?j1 (jobs d))) = Some ?j'"
    using findById_save_job [of ?j' "save_job ?j1 (jobs d)"] mem
    by (simp add: map_jid_save_job applyDefaults_sel i)
  show "processJobs_iteration pr t0 t1 (d, r)
           = snd (snd (processJobs_catch t1 (''Unknown job type: '' @ jtype j0) i ?j1 (?d1, r')))"
    by (rule it)
  show "findById i (jobs (fst (processJobs_iteration pr t0 t1 (d, r))))
           = Some ((applyDefaults j0)\<lparr>retryCount := Some rc,
                     status := (if rc \<le> maxRetries j0 then PENDING else FAILED)\<rparr>)"
    unfolding it c using f by (simp add: applyDefaults_sel)
  show "delayedQueue (snd (processJobs_iteration pr t0 t1 (d, r)))
           = (if rc \<le> maxRetries j0 then (delayedQueue r')(i \<mapsto> t1 + 2 ^ rc * 1000)
              else delayedQueue r')"
    unfolding it c by (simp add: applyDefaults_sel zAdd_def)
  show "lists (snd (processJobs_iteration pr t0 t1 (d, r))) = lists r'"
    unfolding it c by (simp add: zAdd_def)
qed



section \<open>The execution timeout\<close>











section \<open>General facts about the dispatch loop and the execution controller\<close>

lemma executeJob_known_type:
  "jtype j = ''DELAY'' \<or> jtype j = ''EMAIL'' \<or> jtype j = ''WEBHOOK'' \<Longrightarrow>
   executeJob pr t0 j d = executionOnlyExecutor pr t0 j d"
  by (auto simp: executeJob_def)

text \<open>
  The PCB the executor works on is a document of the collection and belongs to the
  job; the start of the executor changes no job.
\<close>

lemma executorStart_inv:
  assumes "executorStart t0 j d = (p0, d0)"
  shows "pcb_id p0 \<in> set (map pcb_id (pcbs d0))" "jobs d0 = jobs d" "jobId p0 = jid j"
proof -
  show "pcb_id p0 \<in> set (map pcb_id (pcbs d0))"
    using assms findOnePCB_mem [of "jid j" "pcbs d"]
    by (auto simp: executorStart_def createPCB_def Let_def split: option.splits if_splits)
  show "jobs d0 = jobs d"
    using assms
    by (auto simp: executorStart_def createPCB_def Let_def split: option.splits if_splits)
  show "jobId p0 = jid j"
    using assms findOnePCB_jobId [of "jid j" "pcbs d"]
    by (auto simp: executorStart_def createPCB_def Let_def newExecutionPCB_def
        split: option.splits if_splits)
qed

text \<open>
  For a job whose document is in the store the executor's promise always resolves,
  after a preemption too; the job object it leaves is the one it got, with status
  SUSPENDED after a preemption; it keeps the jobs' identifiers.
\<close>

lemma executionOnlyExecutor_returns:
  assumes "jid j \<in> set (map jid (jobs d))"
  shows "fst (executionOnlyExecutor pr t0 j d) = Inr ()"
proof -
  obtain p0 d0 where s: "executorStart t0 j d = (p0, d0)" by (cases "executorStart t0 j d")
  note i = executorStart_inv [OF s]
  show ?thesis
    using assms i(1)
    by (simp add: executionOnlyExecutor_def s executorFinish_def Let_def savePCB_def saveJob_def
        i(2) split: option.splits prod.splits)
qed

lemma executionOnlyExecutor_job:
  "fst (snd (executionOnlyExecutor pr t0 j d)) = j
   \<or> fst (snd (executionOnlyExecutor pr t0 j d)) = j\<lparr>status := SUSPENDED\<rparr>"
  by (simp add: executionOnlyExecutor_def executorFinish_def Let_def
      split: option.splits prod.splits sum.splits)

lemma executionOnlyExecutor_ids:
  "map jid (jobs (snd (snd (executionOnlyExecutor pr t0 j d)))) = map jid (jobs d)"
proof -
  obtain p0 d0 where s: "executorStart t0 j d = (p0, d0)" by (cases "executorStart t0 j d")
  note i = executorStart_inv [OF s]
  show ?thesis
    by (auto simp: executionOnlyExecutor_def s executorFinish_def Let_def savePCB_def saveJob_def
        i(2) map_jid_save_job split: option.splits prod.splits sum.splits if_splits)
qed

text \<open>
  Whatever the execution controller did, suspension included, the dispatch loop saves
  the job it ran as SUCCESS.
\<close>

lemma iteration_marks_success:
  assumes pop: "popHighest r = (Some (i, p), r')"
    and found: "findById i (jobs d) = Some j0"
    and known: "jtype j0 = ''DELAY'' \<or> jtype j0 = ''EMAIL'' \<or> jtype j0 = ''WEBHOOK''"
  shows "findById i (jobs (fst (processJobs_iteration pr t0 t1 (d, r))))
           = Some ((applyDefaults j0)\<lparr>status := SUCCESS\<rparr>)"
proof -
  let ?j1 = "(applyDefaults j0)\<lparr>status := RUNNING\<rparr>"
  let ?d1 = "d\<lparr>jobs := save_job ?j1 (jobs d)\<rparr>"
  let ?j3 = "(applyDefaults j0)\<lparr>status := SUCCESS\<rparr>"
  have i: "jid j0 = i" using found by (rule findById_jid)
  have mem: "jid ?j1 \<in> set (map jid (jobs d))"
    using found findById_None [of i "jobs d"] by (simp add: applyDefaults_sel i)
  have mem1: "jid ?j1 \<in> set (map jid (jobs ?d1))" using mem by (simp add: map_jid_save_job)
  obtain res j2 d2 where ex: "executionOnlyExecutor pr t0 ?j1 ?d1 = (res, j2, d2)"
    by (metis prod_cases3)
  have res: "res = Inr ()" using executionOnlyExecutor_returns [OF mem1, of pr t0] ex by simp
  have j2: "j2 = ?j1 \<or> j2 = ?j1\<lparr>status := SUSPENDED\<rparr>"
    using executionOnlyExecutor_job [of pr t0 ?j1 ?d1] ex by simp
  then have eq: "j2\<lparr>status := SUCCESS\<rparr> = ?j3" by auto
  have ids: "map jid (jobs d2) = map jid (jobs d)"
    using executionOnlyExecutor_ids [of pr t0 ?j1 ?d1] ex by (simp add: map_jid_save_job)
  have mem3: "jid ?j3 \<in> set (map jid (jobs d2))" using mem by (simp add: ids)
  have "processJobs_iteration pr t0 t1 (d, r) = (d2\<lparr>jobs := save_job ?j3 (jobs d2)\<rparr>, r')"
    using known
    by (simp add: processJobs_iteration_def pop Job_findById_def found Let_def
        saveJob_Inr [OF mem] executeJob_known_type applyDefaults_sel ex res eq saveJob_Inr [OF mem3])
  then show ?thesis
    using findById_save_job [OF mem3] by (simp add: applyDefaults_sel i)
qed

text \<open>
  The executor adds to resumeCount only when it finds the PCB SUSPENDED; the scanner
  has set every PCB it re-queued to READY.
\<close>

lemma executor_keeps_resumeCount:
  assumes "findOnePCB (jid j) (pcbs d) = Some p" and "pcb_status p \<noteq> PCB_SUSPENDED"
  shows "map_option resumeCount (findOnePCB (jid j) (pcbs (snd (snd (executionOnlyExecutor pr t0 j d)))))
           = Some (resumeCount p)"
proof -
  have k: "jobId p = jid j" using assms(1) by (rule findOnePCB_jobId)
  have m: "pcb_id p \<in> set (map pcb_id (pcbs d))" using findOnePCB_mem [OF assms(1)] by simp
  have s: "\<And>q. pcb_id q = pcb_id p \<Longrightarrow> jobId q = jid j \<Longrightarrow>
             findOnePCB (jid j) (save_pcb q (pcbs d)) = Some q"
    using findOnePCB_save_pcb [OF assms(1)] by simp
  show ?thesis
    using assms m
    by (auto simp: executionOnlyExecutor_def executorStart_def executorFinish_def Let_def
        savePCB_def saveJob_def s k split: option.splits prod.splits sum.splits if_splits)
qed

lemma execution_loop_bounds:
  "execution_loop pr j k remainingMs executedSoFar = Some (k', x) \<Longrightarrow>
   executedSoFar < x \<and> x \<le> remainingMs"
proof (induction pr j k remainingMs executedSoFar rule: execution_loop.induct)
  case (1 pr j k remainingMs executedSoFar)
  from "1.prems" have lt: "executedSoFar < remainingMs"
    by (subst (asm) execution_loop.simps) (simp split: if_splits)
  let ?s = "executedSoFar + min 100 (remainingMs - executedSoFar)"
  have s: "executedSoFar < ?s" "?s \<le> remainingMs" using lt by (simp_all add: min_def)
  show ?case
  proof (cases "checkPreemption (fst (pr k)) (snd (pr k)) j")
    case True
    with "1.prems" lt have "x = ?s"
      by (subst (asm) execution_loop.simps) simp
    with s show ?thesis by simp
  next
    case False
    with "1.prems" lt have "execution_loop pr j (Suc k) remainingMs ?s = Some (k', x)"
      by (subst (asm) execution_loop.simps) simp
    from "1.IH" [OF lt False this] s show ?thesis by linarith
  qed
qed

text \<open>
  The checkpoints of executionOnlyExecutor: from a checkpoint within the required time
  the run saves one that is no smaller and still within it, and on completion the
  required time itself.
\<close>

lemma executor_checkpoint:
  assumes "findOnePCB (jid j) (pcbs d) = Some p" and "executionTimeDoneSecs p = Some c"
    and "c \<le> executionTimeSecs j"
  shows "\<exists>p' c'. findOnePCB (jid j) (pcbs (snd (snd (executionOnlyExecutor pr t0 j d)))) = Some p'
           \<and> executionTimeDoneSecs p' = Some c' \<and> c \<le> c' \<and> c' \<le> executionTimeSecs j
           \<and> (pcb_status p' = PCB_COMPLETED \<longrightarrow> c' = executionTimeSecs j)
           \<and> (pcb_status p' = PCB_COMPLETED \<or> pcb_status p' = PCB_SUSPENDED)"
proof -
  have k: "jobId p = jid j" using assms(1) by (rule findOnePCB_jobId)
  have m: "pcb_id p \<in> set (map pcb_id (pcbs d))" using findOnePCB_mem [OF assms(1)] by simp
  have s: "\<And>q. pcb_id q = pcb_id p \<Longrightarrow> jobId q = jid j \<Longrightarrow>
             findOnePCB (jid j) (save_pcb q (pcbs d)) = Some q"
    using findOnePCB_save_pcb [OF assms(1)] by simp
  show ?thesis
  proof (cases "execution_loop pr j 0 (executionTimeSecs j * 1000 - c * 1000) 0")
    case None
    with assms m show ?thesis
      by (auto simp: executionOnlyExecutor_def executorStart_def executorLoop_def
          executorFinish_def Let_def savePCB_def saveJob_def s k split: if_splits)
  next
    case (Some a)
    obtain k' x where a: "a = (k', x)" by (cases a)
    from execution_loop_bounds [OF Some [unfolded a]]
    have b: "0 < x" "x \<le> executionTimeSecs j * 1000 - c * 1000" by simp_all
    then have c': "c \<le> (c * 1000 + x) / 1000" "(c * 1000 + x) / 1000 \<le> executionTimeSecs j"
      by (simp_all add: field_simps)
    from assms Some a m
    have "\<exists>p'. findOnePCB (jid j) (pcbs (snd (snd (executionOnlyExecutor pr t0 j d)))) = Some p'
            \<and> executionTimeDoneSecs p' = Some ((c * 1000 + x) / 1000)
            \<and> pcb_status p' = PCB_SUSPENDED"
      by (auto simp: executionOnlyExecutor_def executorStart_def executorLoop_def
          executorFinish_def Let_def savePCB_def saveJob_def s k split: if_splits sum.splits)
    then obtain p' where p':
      "findOnePCB (jid j) (pcbs (snd (snd (executionOnlyExecutor pr t0 j d)))) = Some p'"
      "executionTimeDoneSecs p' = Some ((c * 1000 + x) / 1000)" "pcb_status p' = PCB_SUSPENDED"
      by blast
    show ?thesis
      by (rule exI [of _ p'], rule exI [of _ "(c * 1000 + x) / 1000"]) (simp only: p' c' simp_thms pcb_status.distinct)
  qed
qed



section \<open>Properties of the delay executor\<close>

lemma save_pcb_single: "map pcb_id ps = [pcb_id q] \<Longrightarrow> save_pcb q ps = [q]"
  by (cases ps) auto

lemma slicedLoop_quiet:
  assumes quiet: "\<forall>k. \<not> checkPreemption (fst (pr k)) (snd (pr k)) j"
    and per: "\<forall>x q. Inv q \<longrightarrow> Inv (onPeriodic x q) \<and> pcb_id (onPeriodic x q) = pcb_id q"
    and inv: "Inv p"
    and one: "map pcb_id (pcbs d) = [pcb_id p]"
  shows "\<exists>k' p' d'. slicedLoop pr j onSuspend onPeriodic k remaining soFar p d = (Inr (), k', p', d')
           \<and> Inv p' \<and> pcb_id p' = pcb_id p
           \<and> map pcb_id (pcbs d') = [pcb_id p] \<and> jobs d' = jobs d"
  using assms
proof (induction pr j onSuspend onPeriodic k remaining soFar p d rule: slicedLoop.induct)
  case (1 pr j onSuspend onPeriodic k remaining soFar p d)
  show ?case
  proof (cases "soFar < remaining")
    case False
    then show ?thesis using "1.prems"(3,4) by (subst slicedLoop.simps) simp
  next
    case True
    let ?s = "soFar + min 100 (remaining - soFar)"
    have q: "\<not> checkPreemption (fst (pr k)) (snd (pr k)) j" using "1.prems"(1) by blast
    show ?thesis
    proof (cases "multipleOf500 ?s")
      case m: True
      let ?p = "onPeriodic ?s p"
      let ?d = "d\<lparr>pcbs := [?p]\<rparr>"
      have pj: "pcb_id ?p = pcb_id p" "Inv ?p" using "1.prems"(2,3) by simp_all
      have sv: "savePCB ?p d = Inr ?d"
        using "1.prems"(4) pj by (simp add: savePCB_def save_pcb_single)
      have dj: "map pcb_id (pcbs ?d) = [pcb_id ?p]" by simp
      from "1.IH"(1) [OF True q m sv "1.prems"(1) "1.prems"(2) pj(2) dj]
      obtain k' p' d' where r:
        "slicedLoop pr j onSuspend onPeriodic (Suc k) remaining ?s ?p ?d = (Inr (), k', p', d')"
        "Inv p'" "pcb_id p' = pcb_id ?p"
        "map pcb_id (pcbs d') = [pcb_id ?p]" "jobs d' = jobs ?d"
        by (elim exE conjE) (rule that, assumption+)
      have "slicedLoop pr j onSuspend onPeriodic k remaining soFar p d = (Inr (), k', p', d')"
        by (subst slicedLoop.simps) (simp only: True q m if_True if_False sv sum.case r(1))
      with r pj show ?thesis by simp
    next
      case m: False
      from "1.IH"(2) [OF True q m "1.prems"(1) "1.prems"(2) "1.prems"(3) "1.prems"(4)]
      obtain k' p' d' where r:
        "slicedLoop pr j onSuspend onPeriodic (Suc k) remaining ?s p d = (Inr (), k', p', d')"
        "Inv p'" "pcb_id p' = pcb_id p"
        "map pcb_id (pcbs d') = [pcb_id p]" "jobs d' = jobs d"
        by (elim exE conjE) (rule that, assumption+)
      have "slicedLoop pr j onSuspend onPeriodic k remaining soFar p d = (Inr (), k', p', d')"
        by (subst slicedLoop.simps) (simp only: True q m if_True if_False r(1))
      with r show ?thesis by simp
    qed
  qed
qed


text \<open>
  Claim C4, on the code. delayExecutorWithContextSwitch runs \<open>delayJob\<close> (200 ms of
  delay, one second of work) with no preemption and resolves. The PCB it saves last is
  COMPLETED with executionTimeSecs 1, but its executionTimeDoneSecs is undefined: the
  final assignment reads \<^verbatim>\<open>pcb.executionTimeNeededSecs\<close>, which no PCB has.
\<close>

theorem delay_executor_completion_undefined:
  "fst (delayExecutorWithContextSwitch quietProbes 3000 delayJob delayDb) = Inr ()
   \<and> map pcb_status (pcbs (snd (snd (delayExecutorWithContextSwitch quietProbes 3000 delayJob delayDb))))
        = [PCB_COMPLETED]
   \<and> map pcb_executionTimeSecs
        (pcbs (snd (snd (delayExecutorWithContextSwitch quietProbes 3000 delayJob delayDb))))
        = [Some 1]
   \<and> map executionTimeDoneSecs
        (pcbs (snd (snd (delayExecutorWithContextSwitch quietProbes 3000 delayJob delayDb))))
        = [None]"
proof -
  let ?p0 = "(newDelayPCB 3000 delayJob 200)\<lparr>pcb_id := newObjectId []\<rparr>"
  let ?d0 = "\<lparr>jobs = [delayJob], pcbs = [?p0]\<rparr>"
  have sel: "jid delayJob = 21" "executionTimeSecs delayJob = 1"
    "payload_delayMs (job_payload delayJob) = Some 200"
    by (simp_all add: delayJob_def jobA_sel)
  have quiet: "\<forall>k. \<not> checkPreemption (fst (quietProbes k)) (snd (quietProbes k)) delayJob"
    by (rule allI, rule quiet_never_preempts [of _ 3]) (simp_all add: delayJob_def jobA_sel)
  have start: "delayExecutorStart 3000 delayJob delayDb = Inr (?p0, ?d0)"
    by (simp add: delayExecutorStart_def delayDb_def sel createPCB_def Let_def)
  have new: "totalDelayMs (delayProgress (newDelayPCB 3000 delayJob 200)) = Some 200"
    "delayedSoFarMs (delayProgress (newDelayPCB 3000 delayJob 200)) = Some 0"
    "pcb_executionTimeSecs (newDelayPCB 3000 delayJob 200) = Some 1"
    "executionTimeDoneSecs (newDelayPCB 3000 delayJob 200) = Some 0"
    by (simp_all add: newDelayPCB_def sel)
  have "map pcb_id (pcbs ?d0) = [pcb_id ?p0]" by simp
  from slicedLoop_quiet [of quietProbes delayJob
      "\<lambda>q. pcb_executionTimeSecs q = Some 1 \<and> executionTimeDoneSecs q = Some 0"
      "periodicDelay 0" ?p0 _ "suspendDelay 0" 0 200 0, OF quiet _ _ this]
  obtain k1 p1 d1 where loop1:
    "slicedLoop quietProbes delayJob (suspendDelay 0) (periodicDelay 0) 0 200 0 ?p0 ?d0
       = (Inr (), k1, p1, d1)"
    and res1: "pcb_executionTimeSecs p1 = Some 1"
      "executionTimeDoneSecs p1 = Some 0" "map pcb_id (pcbs d1) = [pcb_id p1]"
    by (auto simp: periodicDelay_def new)
  let ?p2 = "p1\<lparr>pcb_status := PCB_COMPLETED, elapsedTime := Some 200\<rparr>"
  have sv2: "savePCB ?p2 d1 = Inr (d1\<lparr>pcbs := [?p2]\<rparr>)"
    using save_pcb_single [of "pcbs d1" ?p2] by (simp add: savePCB_def res1)
  have "map pcb_id (pcbs (d1\<lparr>pcbs := [?p2]\<rparr>)) = [pcb_id ?p2]" by simp
  from slicedLoop_quiet [of quietProbes delayJob
      "\<lambda>q. pcb_executionTimeSecs q = Some 1"
      "periodicExecution 0" ?p2 _ "suspendExecution 0" k1 1000 0, OF quiet _ _ this]
  obtain k3 p3 d3 where loop2:
    "slicedLoop quietProbes delayJob (suspendExecution 0) (periodicExecution 0) k1 1000 0 ?p2
       (d1\<lparr>pcbs := [?p2]\<rparr>) = (Inr (), k3, p3, d3)"
    and res3: "pcb_executionTimeSecs p3 = Some 1" "map pcb_id (pcbs d3) = [pcb_id p3]"
    by (auto simp: periodicExecution_def res1)
  let ?p4 = "p3\<lparr>pcb_status := PCB_COMPLETED, executionTimeDoneSecs := None\<rparr>"
  have sv4: "savePCB ?p4 d3 = Inr (d3\<lparr>pcbs := [?p4]\<rparr>)"
    using save_pcb_single [of "pcbs d3" ?p4] by (simp add: savePCB_def res3)
  have "delayExecutorWithContextSwitch quietProbes 3000 delayJob delayDb
        = (Inr (), delayJob, d3\<lparr>pcbs := [?p4]\<rparr>)"
    by (simp add: delayExecutorWithContextSwitch_def start new loop1 res1 sv2 loop2 res3
        Let_def executionTimeNeededSecs_def sv4)
  then show ?thesis by (simp add: res3)
qed

text \<open>
  For a DELAY job whose payload has no \<^verbatim>\<open>delayMs\<close> and that has no PCB, the delay
  executor rejects at \<^verbatim>\<open>PCB.create\<close> and stores nothing.
\<close>

lemma delay_executor_without_delay:
  "findOnePCB (jid j) (pcbs d) = None \<Longrightarrow> payload_delayMs (job_payload j) = None \<Longrightarrow>
   delayExecutorWithContextSwitch pr t0 j d = (Inl ''ValidationError'', j, d)"
  by (simp add: delayExecutorWithContextSwitch_def delayExecutorStart_def)



section \<open>Properties of the recovery coordinator\<close>

lemma jobR_sel: "jid jobR = 22" "status jobR = RUNNING" "priority jobR = Some 3"
  by (simp_all add: jobR_def jobA_def)

lemma jobS_sel: "jid jobS = 23" "status jobS = SUSPENDED" "priority jobS = Some 5"
  "applyDefaults jobS = jobS"
  by (simp_all add: jobS_def jobA_def applyDefaults_def)

lemma pcbS_sel: "jobId pcbS = 23" "pcb_status pcbS = PCB_SUSPENDED" "pcb_id pcbS = 32"
  by (simp_all add: pcbS_def newExecutionPCB_def jobS_sel)

text \<open>
  Claim C5, on the code. In \<open>orphanDb\<close> the first SUSPENDED PCB belongs to a deleted
  job: the first run of recoverJobs saves it as READY, fails on reading the job's
  priority and stops, with nothing queued on lane 5 and the second PCB still
  SUSPENDED. The second run finds that PCB and queues job 23: it re-enqueues an
  identifier that the first run did not.
\<close>

theorem recovery_orphan_not_idempotent:
  "lists (snd (recoverJobs (orphanDb, emptyRedis))) (lane 5) = []
   \<and> map pcb_status (pcbs (fst (recoverJobs (orphanDb, emptyRedis)))) = [PCB_READY, PCB_SUSPENDED]
   \<and> lists (snd (recoverJobs (recoverJobs (orphanDb, emptyRedis)))) (lane 5) = [23]
   \<and> map pcb_status (pcbs (fst (recoverJobs (recoverJobs (orphanDb, emptyRedis)))))
        = [PCB_READY, PCB_READY]"
proof -
  let ?o = "pcbS\<lparr>pcb_id := 31, jobId := 99, pcb_status := PCB_READY\<rparr>"
  have one: "recoverJobs (orphanDb, emptyRedis)
      = (\<lparr>jobs = [jobS], pcbs = [?o, pcbS]\<rparr>, emptyRedis)"
    by (simp add: recoverJobs_def orphanDb_def findJobs_def findSuspended_def Job_findById_def
        jobS_sel pcbS_sel savePCB_def Let_def)
  have two: "recoverJobs (\<lparr>jobs = [jobS], pcbs = [?o, pcbS]\<rparr>, emptyRedis)
      = (\<lparr>jobs = [jobS], pcbs = [?o, pcbS\<lparr>pcb_status := PCB_READY\<rparr>]\<rparr>,
         lPush emptyRedis (lane 5) 23)"
    by (simp add: recoverJobs_def findJobs_def findSuspended_def Job_findById_def
        jobS_sel pcbS_sel savePCB_def Let_def lane_def)
  show ?thesis
    unfolding one two by (simp add: pcbS_sel lPush_def emptyRedis_def lane_def)
qed



text \<open>
  On \<open>crashedDb\<close>, where every SUSPENDED PCB has its job, the first run re-queues jobs
  21, 22 and 23, leaves no job RUNNING and no PCB SUSPENDED, and the second run changes
  nothing in the database: it pushes the PENDING jobs 21 and 22 once more and
  re-enqueues no identifier that the first run did not.
\<close>

lemma recovery_twice_crashedDb:
  "lists (snd (recoverJobs (crashedDb, emptyRedis))) (lane 3) = [22, 21]
   \<and> lists (snd (recoverJobs (crashedDb, emptyRedis))) (lane 5) = [23]
   \<and> map status (jobs (fst (recoverJobs (crashedDb, emptyRedis)))) = [PENDING, PENDING, SUSPENDED]
   \<and> map pcb_status (pcbs (fst (recoverJobs (crashedDb, emptyRedis)))) = [PCB_READY]
   \<and> fst (recoverJobs (recoverJobs (crashedDb, emptyRedis))) = fst (recoverJobs (crashedDb, emptyRedis))
   \<and> lists (snd (recoverJobs (recoverJobs (crashedDb, emptyRedis)))) (lane 3) = [22, 21, 22, 21]
   \<and> lists (snd (recoverJobs (recoverJobs (crashedDb, emptyRedis)))) (lane 5) = [23]"
proof -
  let ?d1 = "\<lparr>jobs = [jobA, jobR\<lparr>status := PENDING\<rparr>, jobS], pcbs = [pcbS\<lparr>pcb_status := PCB_READY\<rparr>]\<rparr>"
  let ?r1 = "lPush (lPush (lPush emptyRedis (lane 3) 21) (lane 3) 22) (lane 5) 23"
  have ad: "applyDefaults jobR = jobR" "applyDefaults (jobR\<lparr>status := PENDING\<rparr>) = jobR\<lparr>status := PENDING\<rparr>"
    by (simp_all add: applyDefaults_def jobR_def jobA_def)
  have one: "recoverJobs (crashedDb, emptyRedis) = (?d1, ?r1)"
    by (simp add: recoverJobs_def crashedDb_def findJobs_def findSuspended_def Job_findById_def
        jobA_sel applyDefaults_jobA jobR_sel ad jobS_sel pcbS_sel saveJob_def savePCB_def
        Let_def lane_def)
  have two: "recoverJobs (?d1, ?r1) = (?d1, lPush (lPush ?r1 (lane 3) 21) (lane 3) 22)"
    by (simp add: recoverJobs_def findJobs_def findSuspended_def
        jobA_sel applyDefaults_jobA jobR_sel ad jobS_sel pcbS_sel Let_def lane_def)
  show ?thesis
    unfolding one two
    by (simp add: lPush_def emptyRedis_def lane_def jobA_sel jobR_sel jobS_sel pcbS_sel)
qed



text \<open>
  A PENDING job document without priority is re-queued on lane 5, the default that
  mongoose gives the loaded document; and two SUSPENDED PCBs of one job are both set to
  READY, each saved under its own \<^verbatim>\<open>_id\<close>.
\<close>

lemma recovery_legacy_job:
  "lists (snd (recoverJobs (\<lparr>jobs = [legacyJob\<lparr>status := PENDING\<rparr>], pcbs = []\<rparr>, emptyRedis)))
       (JobQueueLane (Some 5)) = [21]
   \<and> lists (snd (recoverJobs (\<lparr>jobs = [legacyJob\<lparr>status := PENDING\<rparr>], pcbs = []\<rparr>, emptyRedis)))
       (JobQueueLane None) = []"
  by (simp add: recoverJobs_def findJobs_def findSuspended_def applyDefaults_def legacyJob_def
      jobA_sel Let_def lPush_def emptyRedis_def)

lemma recovery_two_pcbs:
  "map pcb_status (pcbs (fst (recoverJobs
      (\<lparr>jobs = [jobS], pcbs = [pcbS, pcbS\<lparr>pcb_id := 34\<rparr>]\<rparr>, emptyRedis)))) = [PCB_READY, PCB_READY]
   \<and> lists (snd (recoverJobs
      (\<lparr>jobs = [jobS], pcbs = [pcbS, pcbS\<lparr>pcb_id := 34\<rparr>]\<rparr>, emptyRedis))) (lane 5) = [23, 23]"
  by (simp add: recoverJobs_def findJobs_def findSuspended_def Job_findById_def
      jobS_sel pcbS_sel savePCB_def Let_def lPush_def emptyRedis_def lane_def)



section \<open>Recovery on a store without orphaned PCBs\<close>

lemma save_job_map:
  "distinct (map jid xs) \<Longrightarrow> jid y \<in> jid ` set xs \<Longrightarrow>
   save_job y xs = map (\<lambda>z. if jid z = jid y then y else z) xs"
proof (induction xs)
  case Nil
  then show ?case by simp
next
  case (Cons x xs)
  show ?case
  proof (cases "jid x = jid y")
    case True
    from Cons.prems(1) True have "jid y \<notin> jid ` set xs" by simp
    then have "\<forall>z\<in>set xs. jid z \<noteq> jid y" by (metis imageI)
    then have "map (\<lambda>z. if jid z = jid y then y else z) xs = xs" by (induction xs) auto
    with True show ?thesis by simp
  next
    case False
    with Cons show ?thesis by auto
  qed
qed

lemma save_pcb_map:
  "distinct (map pcb_id xs) \<Longrightarrow> pcb_id y \<in> pcb_id ` set xs \<Longrightarrow>
   save_pcb y xs = map (\<lambda>z. if pcb_id z = pcb_id y then y else z) xs"
proof (induction xs)
  case Nil
  then show ?case by simp
next
  case (Cons x xs)
  show ?case
  proof (cases "pcb_id x = pcb_id y")
    case True
    from Cons.prems(1) True have "pcb_id y \<notin> pcb_id ` set xs" by simp
    then have "\<forall>z\<in>set xs. pcb_id z \<noteq> pcb_id y" by (metis imageI)
    then have "map (\<lambda>z. if pcb_id z = pcb_id y then y else z) xs = xs" by (induction xs) auto
    with True show ?thesis by simp
  next
    case False
    with Cons show ?thesis by auto
  qed
qed

text \<open>Saving an updated copy of each document of a query result, one after the other.\<close>

lemma fold_save_map:
  fixes key :: "'a \<Rightarrow> nat" and upd :: "'a \<Rightarrow> 'a" and save :: "'a \<Rightarrow> 'a list \<Rightarrow> 'a list"
  assumes save: "\<And>y xs. distinct (map key xs) \<Longrightarrow> key y \<in> key ` set xs \<Longrightarrow>
                   save y xs = map (\<lambda>z. if key z = key y then y else z) xs"
    and key: "\<And>y. key (upd y) = key y"
  shows "distinct (map key xs) \<Longrightarrow> set ys \<subseteq> set xs \<Longrightarrow> distinct (map key ys) \<Longrightarrow>
         foldl (\<lambda>acc y. save (upd y) acc) xs ys
           = map (\<lambda>z. if key z \<in> key ` set ys then upd z else z) xs"
proof (induction ys arbitrary: xs)
  case Nil
  then show ?case by simp
next
  case (Cons y ys)
  let ?xs' = "map (\<lambda>z. if key z = key y then upd y else z) xs"
  have inj: "\<And>a b. a \<in> set xs \<Longrightarrow> b \<in> set xs \<Longrightarrow> key a = key b \<Longrightarrow> a = b"
    using Cons.prems(1) by (meson distinct_map inj_onD)
  have y: "y \<in> set xs" using Cons.prems(2) by simp
  have s1: "save (upd y) xs = ?xs'"
    using save [of xs "upd y"] Cons.prems(1) y by (simp add: key)
  have k: "map key ?xs' = map key xs" by (induction xs) (auto simp: key)
  have d': "distinct (map key ?xs')" using Cons.prems(1) by (simp only: k)
  have sub: "set ys \<subseteq> set ?xs'"
  proof
    fix z assume z: "z \<in> set ys"
    with Cons.prems(2) have zx: "z \<in> set xs" by auto
    from Cons.prems(3) have "key y \<notin> key ` set ys" by simp
    with z have "key z \<noteq> key y" by (metis imageI)
    with zx show "z \<in> set ?xs'" by force
  qed
  have dy: "distinct (map key ys)" using Cons.prems(3) by simp
  have "foldl (\<lambda>acc y. save (upd y) acc) xs (y # ys) = foldl (\<lambda>acc y. save (upd y) acc) ?xs' ys"
    by (simp add: s1)
  also have "\<dots> = map (\<lambda>z. if key z \<in> key ` set ys then upd z else z) ?xs'"
    by (rule Cons.IH [OF d' sub dy])
  also have "\<dots> = map (\<lambda>z. if key z \<in> key ` set (y # ys) then upd z else z) xs"
  proof -
    have pt: "(\<lambda>z. if key z \<in> key ` set ys then upd z else z) (if key z = key y then upd y else z)
              = (if key z \<in> key ` set (y # ys) then upd z else z)" if "z \<in> set xs" for z
    proof (cases "key z = key y")
      case True
      with that y inj have "z = y" by blast
      moreover have "key y \<notin> key ` set ys" using Cons.prems(3) by simp
      ultimately show ?thesis by (simp add: key)
    next
      case False
      then show ?thesis by simp
    qed
    show ?thesis unfolding map_map by (rule map_cong [OF refl]) (simp add: pt)
  qed
  finally show ?case .
qed

lemma set_lists_requeuePending:
  "set (lists (requeuePending js r) k)
     = set (lists r k) \<union> jid ` {j \<in> set js. JobQueueLane (priority j) = k}"
  by (induction js arbitrary: r) (auto simp: lPush_def)

lemma delayedQueue_requeuePending: "delayedQueue (requeuePending js r) = delayedQueue r"
  by (induction js arbitrary: r) (simp_all add: lPush_def)

lemma recoverRunning_eq:
  "set (map jid js) \<subseteq> set (map jid (jobs d)) \<Longrightarrow>
   recoverRunning js (d, r)
     = (Inr (), d\<lparr>jobs := foldl (\<lambda>acc j. save_job (j\<lparr>status := PENDING\<rparr>) acc) (jobs d) js\<rparr>,
        requeuePending js r)"
proof (induction js arbitrary: d r)
  case Nil
  then show ?case by simp
next
  case (Cons j js)
  let ?j1 = "j\<lparr>status := PENDING\<rparr>"
  let ?d1 = "d\<lparr>jobs := save_job ?j1 (jobs d)\<rparr>"
  have m: "jid ?j1 \<in> set (map jid (jobs d))" using Cons.prems by simp
  have sub: "set (map jid js) \<subseteq> set (map jid (jobs ?d1))"
    using Cons.prems by (simp add: map_jid_save_job)
  show ?case
    using Cons.IH [OF sub] by (simp add: Let_def saveJob_Inr [OF m])
qed

lemma recoverSuspended_eq:
  "\<forall>x\<in>set xs. snd x \<noteq> None \<Longrightarrow> set (map (pcb_id \<circ> fst) xs) \<subseteq> set (map pcb_id (pcbs d)) \<Longrightarrow>
   recoverSuspended xs (d, r)
     = (Inr (),
        d\<lparr>pcbs := foldl (\<lambda>acc p. save_pcb (p\<lparr>pcb_status := PCB_READY\<rparr>) acc) (pcbs d) (map fst xs)\<rparr>,
        requeuePending (map (the \<circ> snd) xs) r)"
proof (induction xs arbitrary: d r)
  case Nil
  then show ?case by simp
next
  case (Cons x xs)
  obtain p j where x: "x = (p, Some j)" using Cons.prems(1) by (cases x) auto
  let ?p1 = "p\<lparr>pcb_status := PCB_READY\<rparr>"
  let ?d1 = "d\<lparr>pcbs := save_pcb ?p1 (pcbs d)\<rparr>"
  have m: "pcb_id ?p1 \<in> set (map pcb_id (pcbs d))" using Cons.prems(2) by (simp add: x)
  from Cons.prems(1) have a: "\<forall>x\<in>set xs. snd x \<noteq> None" by simp
  have sub: "set (map (pcb_id \<circ> fst) xs) \<subseteq> set (map pcb_id (pcbs ?d1))"
    using Cons.prems(2) by (simp add: map_pcb_id_save_pcb)
  show ?case
    using Cons.IH [OF a sub] by (simp add: x savePCB_Inr [OF m])
qed

lemma findById_map:
  "(\<And>z. jid (f z) = jid z) \<Longrightarrow> findById i (map f xs) = map_option f (findById i xs)"
  by (induction xs) simp_all

text \<open>
  One run of recoverJobs on a store with unique \<^verbatim>\<open>_id\<close>s in which every SUSPENDED PCB
  has its job: every RUNNING job becomes PENDING, every SUSPENDED PCB becomes READY,
  and the PENDING jobs, the RUNNING jobs and the jobs of the SUSPENDED PCBs are pushed
  in this order.
\<close>

lemma recoverJobs_eq:
  assumes dj: "distinct (map jid (jobs d))" and dp: "distinct (map pcb_id (pcbs d))"
    and pop: "\<forall>x\<in>set (findSuspended d). snd x \<noteq> None"
  shows "recoverJobs (d, r)
     = (\<lparr>jobs = map (\<lambda>z. if status z = RUNNING then (applyDefaults z)\<lparr>status := PENDING\<rparr> else z) (jobs d),
         pcbs = map (\<lambda>z. if pcb_status z = PCB_SUSPENDED then z\<lparr>pcb_status := PCB_READY\<rparr> else z) (pcbs d)\<rparr>,
        requeuePending
          (map (the \<circ> snd)
             (findSuspended (d\<lparr>jobs := map (\<lambda>z. if status z = RUNNING then (applyDefaults z)\<lparr>status := PENDING\<rparr> else z) (jobs d)\<rparr>)))
          (requeuePending (findJobs RUNNING d) (requeuePending (findJobs PENDING d) r)))"
proof -
  let ?upd = "\<lambda>z. (applyDefaults z)\<lparr>status := PENDING\<rparr>"
  let ?un = "\<lambda>z. if status z = RUNNING then ?upd z else z"
  let ?rd = "\<lambda>z. if pcb_status z = PCB_SUSPENDED then z\<lparr>pcb_status := PCB_READY\<rparr> else z"
  let ?R = "filter (\<lambda>j. status j = RUNNING) (jobs d)"
  let ?S = "filter (\<lambda>p. pcb_status p = PCB_SUSPENDED) (pcbs d)"
  have injj: "\<And>a b. a \<in> set (jobs d) \<Longrightarrow> b \<in> set (jobs d) \<Longrightarrow> jid a = jid b \<Longrightarrow> a = b"
    using dj by (meson distinct_map inj_onD)
  have injp: "\<And>a b. a \<in> set (pcbs d) \<Longrightarrow> b \<in> set (pcbs d) \<Longrightarrow> pcb_id a = pcb_id b \<Longrightarrow> a = b"
    using dp by (meson distinct_map inj_onD)
  have fR: "findJobs RUNNING d = map applyDefaults ?R" by (simp add: findJobs_def)
  have subR: "set (map jid (findJobs RUNNING d)) \<subseteq> set (map jid (jobs d))"
    by (auto simp: fR applyDefaults_sel)
  have "foldl (\<lambda>acc j. save_job (j\<lparr>status := PENDING\<rparr>) acc) (jobs d) (findJobs RUNNING d)
        = foldl (\<lambda>acc y. save_job (?upd y) acc) (jobs d) ?R"
    unfolding fR by (simp add: foldl_map)
  also have "\<dots> = map (\<lambda>z. if jid z \<in> jid ` set ?R then ?upd z else z) (jobs d)"
    by (rule fold_save_map [where key = jid and upd = ?upd and save = save_job])
       (simp_all add: save_job_map dj distinct_map_filter applyDefaults_sel)
  also have "\<dots> = map ?un (jobs d)"
  proof (rule map_cong [OF refl])
    fix z assume z: "z \<in> set (jobs d)"
    have "jid z \<in> jid ` set ?R \<longleftrightarrow> status z = RUNNING"
    proof
      assume "jid z \<in> jid ` set ?R"
      then obtain y where "y \<in> set (jobs d)" "status y = RUNNING" "jid z = jid y"
        by auto
      with z injj show "status z = RUNNING" by blast
    next
      assume "status z = RUNNING"
      with z show "jid z \<in> jid ` set ?R" by auto
    qed
    then show "(if jid z \<in> jid ` set ?R then ?upd z else z) = ?un z" by simp
  qed
  finally have run: "foldl (\<lambda>acc j. save_job (j\<lparr>status := PENDING\<rparr>) acc) (jobs d) (findJobs RUNNING d)
        = map ?un (jobs d)" .
  let ?d2 = "d\<lparr>jobs := map ?un (jobs d)\<rparr>"
  have fm: "findById i (map ?un (jobs d)) = map_option ?un (findById i (jobs d))" for i
    by (rule findById_map) (simp add: applyDefaults_sel)
  have fs: "findSuspended ?d2
              = map (\<lambda>p. (p, map_option applyDefaults (map_option ?un (findById (jobId p) (jobs d))))) ?S"
    by (simp add: findSuspended_def Job_findById_def fm)
  have pop2: "\<forall>x\<in>set (findSuspended ?d2). snd x \<noteq> None"
    using pop unfolding fs by (auto simp: findSuspended_def Job_findById_def)
  have fst_fs: "map fst (findSuspended ?d2) = ?S" by (simp add: fs comp_def)
  have subS: "set (map (pcb_id \<circ> fst) (findSuspended ?d2)) \<subseteq> set (map pcb_id (pcbs ?d2))"
    by (auto simp: fs)
  have "foldl (\<lambda>acc p. save_pcb (p\<lparr>pcb_status := PCB_READY\<rparr>) acc) (pcbs d) ?S
        = map (\<lambda>z. if pcb_id z \<in> pcb_id ` set ?S then z\<lparr>pcb_status := PCB_READY\<rparr> else z) (pcbs d)"
    by (rule fold_save_map [where key = pcb_id and upd = "\<lambda>p. p\<lparr>pcb_status := PCB_READY\<rparr>"
          and save = save_pcb])
       (simp_all add: save_pcb_map dp distinct_map_filter)
  also have "\<dots> = map ?rd (pcbs d)"
  proof (rule map_cong [OF refl])
    fix z assume z: "z \<in> set (pcbs d)"
    have "pcb_id z \<in> pcb_id ` set ?S \<longleftrightarrow> pcb_status z = PCB_SUSPENDED"
    proof
      assume "pcb_id z \<in> pcb_id ` set ?S"
      then obtain y where "y \<in> set (pcbs d)" "pcb_status y = PCB_SUSPENDED" "pcb_id z = pcb_id y"
        by auto
      with z injp show "pcb_status z = PCB_SUSPENDED" by blast
    next
      assume "pcb_status z = PCB_SUSPENDED"
      with z show "pcb_id z \<in> pcb_id ` set ?S" by auto
    qed
    then show "(if pcb_id z \<in> pcb_id ` set ?S then z\<lparr>pcb_status := PCB_READY\<rparr> else z) = ?rd z"
      by simp
  qed
  finally have sus: "foldl (\<lambda>acc p. save_pcb (p\<lparr>pcb_status := PCB_READY\<rparr>) acc) (pcbs d) ?S
        = map ?rd (pcbs d)" .
  have rr: "recoverRunning (findJobs RUNNING d) (d, requeuePending (findJobs PENDING d) r)
      = (Inr (), ?d2, requeuePending (findJobs RUNNING d) (requeuePending (findJobs PENDING d) r))"
    unfolding recoverRunning_eq [OF subR] run ..
  have rs: "recoverSuspended (findSuspended ?d2)
        (?d2, requeuePending (findJobs RUNNING d) (requeuePending (findJobs PENDING d) r))
      = (Inr (), ?d2\<lparr>pcbs := map ?rd (pcbs d)\<rparr>,
         requeuePending (map (the \<circ> snd) (findSuspended ?d2))
           (requeuePending (findJobs RUNNING d) (requeuePending (findJobs PENDING d) r)))"
    unfolding recoverSuspended_eq [OF pop2 subS] fst_fs using sus by simp
  show ?thesis
    by (simp add: recoverJobs_def Let_def rr rs)
qed

text \<open>
  On such a store a second run changes neither the database nor the delayed set nor,
  for any Redis key, the set of identifiers queued on it: after the first run no job
  is RUNNING and no PCB is SUSPENDED, and the second run pushes only the PENDING jobs
  again, which the first run has queued already.
\<close>

lemma recovery_idempotent:
  assumes "distinct (map jid (jobs d))" and "distinct (map pcb_id (pcbs d))"
    and "\<forall>x\<in>set (findSuspended d). snd x \<noteq> None"
  shows "fst (recoverJobs (recoverJobs (d, r))) = fst (recoverJobs (d, r))
     \<and> (\<forall>k. set (lists (snd (recoverJobs (recoverJobs (d, r)))) k)
              = set (lists (snd (recoverJobs (d, r))) k))
     \<and> delayedQueue (snd (recoverJobs (recoverJobs (d, r)))) = delayedQueue (snd (recoverJobs (d, r)))
     \<and> findJobs RUNNING (fst (recoverJobs (d, r))) = []
     \<and> findSuspended (fst (recoverJobs (d, r))) = []
     \<and> snd (recoverJobs (recoverJobs (d, r)))
          = requeuePending (findJobs PENDING (fst (recoverJobs (d, r)))) (snd (recoverJobs (d, r)))"
proof -
  let ?un = "\<lambda>z. if status z = RUNNING then (applyDefaults z)\<lparr>status := PENDING\<rparr> else z"
  let ?rd = "\<lambda>z. if pcb_status z = PCB_SUSPENDED then z\<lparr>pcb_status := PCB_READY\<rparr> else z"
  let ?d1 = "\<lparr>jobs = map ?un (jobs d), pcbs = map ?rd (pcbs d)\<rparr>"
  let ?r0 = "requeuePending (findJobs RUNNING d) (requeuePending (findJobs PENDING d) r)"
  obtain r1 where one: "recoverJobs (d, r) = (?d1, r1)"
    and r1: "\<And>k. set (lists ?r0 k) \<subseteq> set (lists r1 k)"
    using recoverJobs_eq [OF assms, of r] by (auto simp: set_lists_requeuePending)
  have noR: "findJobs RUNNING ?d1 = []"
    by (auto simp: findJobs_def filter_empty_conv)
  have noS: "findSuspended ?d1 = []"
    by (auto simp: findSuspended_def filter_empty_conv)
  have two: "recoverJobs (?d1, r1) = (?d1, requeuePending (findJobs PENDING ?d1) r1)"
    by (simp add: recoverJobs_def Let_def noR noS)
  have again: "jid ` {j \<in> set (findJobs PENDING ?d1). JobQueueLane (priority j) = k}
                 \<subseteq> set (lists r1 k)" for k
  proof
    fix i assume "i \<in> jid ` {j \<in> set (findJobs PENDING ?d1). JobQueueLane (priority j) = k}"
    then obtain z where z: "z \<in> set (jobs d)" "status (?un z) = PENDING"
      "JobQueueLane (priority (applyDefaults (?un z))) = k" "i = jid (?un z)"
      by (auto simp: findJobs_def applyDefaults_sel)
    then have st: "status z = PENDING \<or> status z = RUNNING" by (auto split: if_splits)
    have pr: "priority (applyDefaults (?un z)) = priority (applyDefaults z)"
      by (simp add: applyDefaults_def)
    have "applyDefaults z \<in> set (findJobs PENDING d) \<or> applyDefaults z \<in> set (findJobs RUNNING d)"
      using z(1) st by (auto simp: findJobs_def)
    moreover have "jid (applyDefaults z) = i" "JobQueueLane (priority (applyDefaults z)) = k"
      using z(3,4) pr by (simp_all add: applyDefaults_sel)
    ultimately have "i \<in> set (lists ?r0 k)"
      unfolding set_lists_requeuePending by blast
    with r1 show "i \<in> set (lists r1 k)" by blast
  qed
  have "set (lists (requeuePending (findJobs PENDING ?d1) r1) k) = set (lists r1 k)" for k
    using again [of k] by (auto simp: set_lists_requeuePending)
  then show ?thesis
    by (simp add: one two delayedQueue_requeuePending noR noS)
qed


end
